theory Spec2Isabelle
  imports Complex_Main "HOL-Library.Word"
begin

section \<open>JavaScript values shared by the modules\<close>

text \<open>
  A JavaScript exception is a value of \<open>js_error\<close>; a function that can throw returns
  \<open>js_error + 'a\<close> with \<open>Inl\<close> for the exception. JavaScript numbers are read as
  real numbers; the rounding of IEEE doubles is written out where a claim depends on it.
\<close>

datatype js_error = TypeError | SecurityError | IndexSizeError

section \<open>Canvas noise: src/fingerprint/canvas.ts\<close>

record CanvasNoiseConfig =
  enabled :: bool
  noise :: real
  seed :: string

subsection \<open>The generator \<open>seededRandom\<close> of the injected script\<close>

text \<open>
  The seeding loop \<open>hash = ((hash << 5) - hash) + char; hash = hash & hash\<close> keeps a
  32-bit two's complement integer: \<open><<\<close> and \<open>&\<close> convert to Int32, so the arithmetic is
  that of \<open>32 word\<close>, read back with \<open>sint\<close>.
\<close>

definition seed_hash :: "string \<Rightarrow> 32 word" where
  "seed_hash s = fold (\<lambda>c hash. (push_bit 5 hash - hash) + of_nat (of_char c)) s 0"

text \<open>\<open>seededRandom seed\<close> is the value of the closure variable \<open>hash\<close> once the
  generator has been built; \<open>random_call\<close> is one call of the returned function: it gives
  the number returned and the new value of \<open>hash\<close>.\<close>

definition seededRandom :: "string \<Rightarrow> real" where
  "seededRandom s = real_of_int (sint (seed_hash s))"

definition random_call :: "real \<Rightarrow> real \<times> real" where
  "random_call hash = (let hash' = sin hash * 10000 in (hash' - of_int \<lfloor>hash'\<rfloor>, hash'))"

subsection \<open>\<open>addNoise\<close>\<close>

text \<open>
  The image data is the \<open>Uint8ClampedArray\<close> of RGBA bytes, a list of integers. One pass
  of the inner loop body draws a number, computes \<open>noise\<close> and stores the clamped sum at
  index \<open>k = i + j\<close>. A store past the end of a typed array is ignored, and the draw is
  made all the same.
\<close>

definition noise_channel :: "real \<Rightarrow> nat \<Rightarrow> real \<times> int list \<Rightarrow> real \<times> int list" where
  "noise_channel noiseScale k st =
     (case st of (hash, data) \<Rightarrow>
        (case random_call hash of (r, hash') \<Rightarrow>
           (let noise = \<lfloor>(r - 1 / 2) * noiseScale * 10\<rfloor>
            in (hash', if k < length data
                       then data[k := max 0 (min 255 (data ! k + noise))]
                       else data))))"

definition noise_pixel :: "real \<Rightarrow> nat \<Rightarrow> real \<times> int list \<Rightarrow> real \<times> int list" where
  "noise_pixel noiseScale i st = fold (\<lambda>j. noise_channel noiseScale (i + j)) [0, 1, 2] st"

lemma length_noise_channel: "length (snd (noise_channel ns k st)) = length (snd st)"
  by (cases st) (simp add: noise_channel_def Let_def split: prod.splits)

lemma length_noise_pixel: "length (snd (noise_pixel ns i st)) = length (snd st)"
  by (simp add: noise_pixel_def length_noise_channel)

function addNoise_loop :: "real \<Rightarrow> nat \<Rightarrow> real \<times> int list \<Rightarrow> int list" where
  "addNoise_loop noiseScale i st =
     (if i < length (snd st) then addNoise_loop noiseScale (i + 4) (noise_pixel noiseScale i st)
      else snd st)"
  by pat_completeness auto
termination
  by (relation "measure (\<lambda>(ns, i, st). length (snd st) - i)")
     (auto simp: length_noise_pixel)

declare addNoise_loop.simps [simp del]

definition addNoise :: "CanvasNoiseConfig \<Rightarrow> int list \<Rightarrow> int list" where
  "addNoise config imageData =
     addNoise_loop (noise config / 100) 0 (seededRandom (seed config @ ''_canvas''), imageData)"

section \<open>The random source\<close>

text \<open>
  \<open>Math.random\<close> is the only source of variation of the generators. Its state is the
  sequence of the numbers its next calls return: \<open>g 0\<close> is the next result. A call
  returns it and leaves the sequence without it; \<open>rng_drop k g\<close> is the state after
  \<open>k\<close> calls. The host promises \<open>0 \<le> r < 1\<close> for every
  result \<open>r\<close>, which is \<open>valid_rng\<close>.
\<close>

type_synonym rng = "nat \<Rightarrow> real"

definition rng_drop :: "nat \<Rightarrow> rng \<Rightarrow> rng" where
  "rng_drop k g = (\<lambda>n. g (n + k))"

definition Math_random :: "rng \<Rightarrow> real \<times> rng" where
  "Math_random g = (g 0, rng_drop 1 g)"

definition valid_rng :: "rng \<Rightarrow> bool" where
  "valid_rng g = (\<forall>n. 0 \<le> g n \<and> g n < 1)"

definition randomInt :: "int \<Rightarrow> int \<Rightarrow> rng \<Rightarrow> int \<times> rng" where
  "randomInt lo hi g =
     (case Math_random g of (r, g') \<Rightarrow> (\<lfloor>r * of_int (hi - lo + 1)\<rfloor> + lo, g'))"

text \<open>\<open>arr[i]\<close> for an integer \<open>i\<close> is \<open>undefined\<close>, here \<open>None\<close>, outside the array.\<close>

definition js_index :: "'a list \<Rightarrow> int \<Rightarrow> 'a option" where
  "js_index arr i = (if 0 \<le> i \<and> i < int (length arr) then Some (arr ! nat i) else None)"

definition randomChoice :: "'a list \<Rightarrow> rng \<Rightarrow> 'a option \<times> rng" where
  "randomChoice arr g =
     (case Math_random g of (r, g') \<Rightarrow> (js_index arr \<lfloor>r * of_nat (length arr)\<rfloor>, g'))"

subsection \<open>Numbers and \<open>undefined\<close> in template strings\<close>

fun dec_of_nat :: "nat \<Rightarrow> string" where
  "dec_of_nat n =
     (if n < 10 then [''0123456789'' ! n]
      else dec_of_nat (n div 10) @ [''0123456789'' ! (n mod 10)])"

declare dec_of_nat.simps [simp del]

fun hex_of_nat :: "nat \<Rightarrow> string" where
  "hex_of_nat n =
     (if n < 16 then [''0123456789abcdef'' ! n]
      else hex_of_nat (n div 16) @ [''0123456789abcdef'' ! (n mod 16)])"

declare hex_of_nat.simps [simp del]

text \<open>\<open>String(n)\<close> and \<open>n.toString(16)\<close> of an integer \<open>n\<close>.\<close>

definition js_int_str :: "int \<Rightarrow> string" where
  "js_int_str n = (if n < 0 then ''-'' @ dec_of_nat (nat (- n)) else dec_of_nat (nat n))"

definition js_int_hex :: "int \<Rightarrow> string" where
  "js_int_hex n = (if n < 0 then ''-'' @ hex_of_nat (nat (- n)) else hex_of_nat (nat n))"

definition js_str :: "string option \<Rightarrow> string" where
  "js_str v = (case v of None \<Rightarrow> ''undefined'' | Some s \<Rightarrow> s)"

subsection \<open>Rounding to a double\<close>

text \<open>
  The numbers of JavaScript are IEEE 754 doubles. They are real numbers here, and an
  operation is exact except where a claim depends on its rounding; there the rounding is
  written out. \<open>round_double x\<close> is the double nearest to \<open>x\<close>, the one with the even
  significand of two nearest ones: the doubles of magnitude from \<open>2^e\<close> to \<open>2^(e+1)\<close> are
  the multiples of \<open>2^(e-52)\<close>. Overflow and subnormal numbers are left out; no number
  rounded here is near them. A decimal literal is the double nearest to the fraction
  it writes, and \<open>+\<close> on doubles is the rounded exact sum.
\<close>

definition round_ties_even :: "real \<Rightarrow> int" where
  "round_ties_even x =
     (let n = \<lfloor>x\<rfloor>; f = x - of_int n
      in if f < 1 / 2 then n else if 1 / 2 < f then n + 1 else if even n then n else n + 1)"

definition double_exponent :: "real \<Rightarrow> int" where
  "double_exponent x = \<lfloor>log 2 \<bar>x\<bar>\<rfloor>"

definition round_double :: "real \<Rightarrow> real" where
  "round_double x =
     (if x = 0 then 0
      else of_int (round_ties_even (x / 2 powi (double_exponent x - 52))) *
           2 powi (double_exponent x - 52))"

definition double_add :: "real \<Rightarrow> real \<Rightarrow> real" where
  "double_add x y = round_double (x + y)"

section \<open>User agent: src/fingerprint/ua.ts\<close>

datatype PlatformType = Windows | Mac | Linux | Random

record UAComponents =
  ua_platform :: string
  platformVersion :: string
  browser :: string
  browserVersion :: string
  webkit :: string
  chrome :: string

definition CHROME_VERSIONS_min :: int where
  "CHROME_VERSIONS_min = 110"

definition CHROME_VERSIONS_max :: int where
  "CHROME_VERSIONS_max = 120"

definition PLATFORMS_windows_versions :: "string list" where
  "PLATFORMS_windows_versions = [''10.0'', ''11.0'']"

definition PLATFORMS_windows_arch :: "string list" where
  "PLATFORMS_windows_arch = [''Win64; x64'']"

definition PLATFORMS_mac_versions :: "string list" where
  "PLATFORMS_mac_versions = [''10_15_7'', ''11_0'', ''12_0'', ''13_0'', ''14_0'']"

text \<open>\<open>WEBKIT_BASE\<close> is the number 537.36; only its string is ever used.\<close>

definition WEBKIT_BASE :: string where
  "WEBKIT_BASE = ''537.36''"

definition generateChromeVersion :: "rng \<Rightarrow> string \<times> rng" where
  "generateChromeVersion g =
     (case randomInt CHROME_VERSIONS_min CHROME_VERSIONS_max g of (major, g1) \<Rightarrow>
      case randomInt 5000 6000 g1 of (build, g2) \<Rightarrow>
      case randomInt 0 200 g2 of (patch, g3) \<Rightarrow>
        (js_int_str major @ ''.'' @ js_int_str 0 @ ''.'' @ js_int_str build @ ''.'' @
         js_int_str patch, g3))"

definition generateWindowsUA :: "rng \<Rightarrow> string \<times> rng" where
  "generateWindowsUA g =
     (case generateChromeVersion g of (chromeVersion, g1) \<Rightarrow>
      case randomChoice PLATFORMS_windows_versions g1 of (ntVersion, g2) \<Rightarrow>
      case randomChoice PLATFORMS_windows_arch g2 of (arch, g3) \<Rightarrow>
        (''Mozilla/5.0 (Windows NT '' @ js_str ntVersion @ ''; '' @ js_str arch @
         '') AppleWebKit/'' @ WEBKIT_BASE @ '' (KHTML, like Gecko) Chrome/'' @ chromeVersion @
         '' Safari/'' @ WEBKIT_BASE, g3))"

definition generateMacUA :: "rng \<Rightarrow> string \<times> rng" where
  "generateMacUA g =
     (case generateChromeVersion g of (chromeVersion, g1) \<Rightarrow>
      case randomChoice PLATFORMS_mac_versions g1 of (osVersion, g2) \<Rightarrow>
        (''Mozilla/5.0 (Macintosh; Intel Mac OS X '' @ js_str osVersion @
         '') AppleWebKit/'' @ WEBKIT_BASE @ '' (KHTML, like Gecko) Chrome/'' @ chromeVersion @
         '' Safari/'' @ WEBKIT_BASE, g2))"

definition generateLinuxUA :: "rng \<Rightarrow> string \<times> rng" where
  "generateLinuxUA g =
     (case generateChromeVersion g of (chromeVersion, g1) \<Rightarrow>
        (''Mozilla/5.0 (X11; Linux x86_64) AppleWebKit/'' @ WEBKIT_BASE @
         '' (KHTML, like Gecko) Chrome/'' @ chromeVersion @ '' Safari/'' @ WEBKIT_BASE, g1))"

text \<open>
  The loop of \<open>generateUA\<close> over \<open>platforms\<close> and \<open>weights\<close>: \<open>cumulative\<close> grows by the
  weight, and the first platform with \<open>rand < cumulative\<close> is taken (\<open>break\<close>). When no
  threshold is passed \<open>platform\<close> keeps its value, \<open>random\<close>, and the \<open>switch\<close> takes
  its \<open>default\<close>. The weights are the doubles of the literals \<open>0.7\<close>, \<open>0.2\<close> and \<open>0.1\<close>,
  and \<open>cumulative += weights[i]\<close> is an addition of doubles.
\<close>

fun weighted_loop ::
  "(PlatformType \<times> real) list \<Rightarrow> real \<Rightarrow> real \<Rightarrow> PlatformType \<Rightarrow> PlatformType" where
  "weighted_loop [] rand cumulative platform = platform"
| "weighted_loop ((p, w) # rest) rand cumulative platform =
     (let cumulative' = double_add cumulative w
      in if rand < cumulative' then p else weighted_loop rest rand cumulative' platform)"

definition resolvePlatform :: "real \<Rightarrow> PlatformType" where
  "resolvePlatform rand =
     weighted_loop
       (zip [Windows, Mac, Linux] [round_double (7 / 10), round_double (2 / 10), round_double (1 / 10)])
       rand 0 Random"

definition generateUA :: "PlatformType \<Rightarrow> rng \<Rightarrow> string \<times> rng" where
  "generateUA platform g =
     (case (if platform = Random
            then (case Math_random g of (rand, g1) \<Rightarrow> (resolvePlatform rand, g1))
            else (platform, g)) of
        (platform', g') \<Rightarrow>
          (case platform' of
             Windows \<Rightarrow> generateWindowsUA g'
           | Mac \<Rightarrow> generateMacUA g'
           | Linux \<Rightarrow> generateLinuxUA g'
           | Random \<Rightarrow> generateWindowsUA g'))"

subsection \<open>\<open>parseUA\<close> and the client hints\<close>

fun starts_with :: "string \<Rightarrow> string \<Rightarrow> bool" where
  "starts_with [] s = True"
| "starts_with (p # ps) [] = False"
| "starts_with (p # ps) (c # cs) = (p = c \<and> starts_with ps cs)"

text \<open>\<open>s.includes(sub)\<close>.\<close>

fun js_includes :: "string \<Rightarrow> string \<Rightarrow> bool" where
  "js_includes [] sub = (sub = [])"
| "js_includes (c # cs) sub = (starts_with sub (c # cs) \<or> js_includes cs sub)"

definition is_digit :: "char \<Rightarrow> bool" where
  "is_digit c = (c \<in> set ''0123456789'')"

text \<open>
  \<open>\d+\.\<close> at the start of \<open>s\<close>: the digits matched and the rest after the dot. The
  greedy \<open>\d+\<close> takes the whole run of digits; a shorter run is followed by a digit, never
  by the dot, so backtracking finds nothing more.
\<close>

definition digits_dot :: "string \<Rightarrow> (string \<times> string) option" where
  "digits_dot s =
     (let d = takeWhile is_digit s; r = dropWhile is_digit s
      in if d \<noteq> [] \<and> starts_with ''.'' r then Some (d, tl r) else None)"

text \<open>\<open>\d+\.\d+\.\d+\.\d+\<close> at the start of \<open>s\<close>: the text matched.\<close>

definition version_at :: "string \<Rightarrow> string option" where
  "version_at s =
     (case digits_dot s of None \<Rightarrow> None | Some (d1, s1) \<Rightarrow>
      case digits_dot s1 of None \<Rightarrow> None | Some (d2, s2) \<Rightarrow>
      case digits_dot s2 of None \<Rightarrow> None | Some (d3, s3) \<Rightarrow>
        (let d4 = takeWhile is_digit s3
         in if d4 = [] then None else Some (d1 @ ''.'' @ d2 @ ''.'' @ d3 @ ''.'' @ d4)))"

text \<open>\<open>ua.match(/Chrome\/(\d+\.\d+\.\d+\.\d+)/)\<close>: group 1 of the leftmost match.\<close>

fun chromeMatch :: "string \<Rightarrow> string option" where
  "chromeMatch [] = None"
| "chromeMatch (c # cs) =
     (if starts_with ''Chrome/'' (c # cs)
      then (case version_at (drop 7 (c # cs)) of
              Some v \<Rightarrow> Some v
            | None \<Rightarrow> chromeMatch cs)
      else chromeMatch cs)"

text \<open>\<open>ua.match(/\(([^)]+)\)/)\<close>: group 1 of the leftmost match.\<close>

fun platformMatch :: "string \<Rightarrow> string option" where
  "platformMatch [] = None"
| "platformMatch (c # cs) =
     (if c = CHR ''(''
      then (let body = takeWhile (\<lambda>x. x \<noteq> CHR '')'') cs;
                rest = dropWhile (\<lambda>x. x \<noteq> CHR '')'') cs
            in if body \<noteq> [] \<and> rest \<noteq> [] then Some body else platformMatch cs)
      else platformMatch cs)"

definition parseUA :: "string \<Rightarrow> UAComponents option" where
  "parseUA ua =
     (case (chromeMatch ua, platformMatch ua) of
        (Some cm, Some pm) \<Rightarrow>
          Some \<lparr>ua_platform = pm, platformVersion = [], browser = ''Chrome'',
                browserVersion = cm, webkit = WEBKIT_BASE, chrome = cm\<rparr>
      | _ \<Rightarrow> None)"

text \<open>
  The record of headers is the list of its entries in insertion order; \<open>{}\<close> is the empty
  list. \<open>split('.')[0]\<close> is the text before the first dot. The header values carry their
  double quotes, character 34, written \<open>dq\<close>.
\<close>

definition dq :: string where
  "dq = [char_of (34 :: nat)]"

definition generateClientHints :: "string \<Rightarrow> (string \<times> string) list" where
  "generateClientHints ua =
     (case parseUA ua of
        None \<Rightarrow> []
      | Some parsed \<Rightarrow>
          (let majorVersion = takeWhile (\<lambda>x. x \<noteq> CHR ''.'') (browserVersion parsed)
           in [(''sec-ch-ua'',
                  dq @ ''Chromium'' @ dq @ '';v='' @ dq @ majorVersion @ dq @ '', '' @
                  dq @ ''Google Chrome'' @ dq @ '';v='' @ dq @ majorVersion @ dq @ '', '' @
                  dq @ ''Not=A?Brand'' @ dq @ '';v='' @ dq @ ''8'' @ dq),
               (''sec-ch-ua-mobile'', ''?0''),
               (''sec-ch-ua-platform'',
                  if js_includes ua ''Windows'' then dq @ ''Windows'' @ dq
                  else if js_includes ua ''Mac'' then dq @ ''macOS'' @ dq
                  else dq @ ''Linux'' @ dq)]))"

section \<open>Seeds of the generated configurations\<close>

text \<open>
  \<open>generateCanvasNoiseSeed\<close>, \<open>generateWebGLSeed\<close> and \<open>generateHardwareSeed\<close> are the
  same function text: 32 calls of \<open>Math.random\<close>, each giving one hexadecimal digit.
\<close>

definition generateSeed :: "rng \<Rightarrow> string \<times> rng" where
  "generateSeed g =
     (concat (map (\<lambda>k. js_int_hex \<lfloor>g k * 16\<rfloor>) [0..<32]), rng_drop 32 g)"

definition generateCanvasNoiseSeed :: "rng \<Rightarrow> string \<times> rng" where
  "generateCanvasNoiseSeed = generateSeed"

definition generateWebGLSeed :: "rng \<Rightarrow> string \<times> rng" where
  "generateWebGLSeed = generateSeed"

definition generateHardwareSeed :: "rng \<Rightarrow> string \<times> rng" where
  "generateHardwareSeed = generateSeed"

definition getDefaultCanvasConfig :: "rng \<Rightarrow> CanvasNoiseConfig \<times> rng" where
  "getDefaultCanvasConfig g =
     (case generateCanvasNoiseSeed g of (s, g1) \<Rightarrow>
        (\<lparr>enabled = True, noise = 3, seed = s\<rparr>, g1))"

section \<open>WebGL identity: src/fingerprint/webgl.ts\<close>

record GPU =
  vendor :: string
  renderer :: string

record WebGLConfig =
  webgl_enabled :: bool
  webgl_vendor :: string
  webgl_renderer :: string
  webgl_seed :: string

definition GPU_CONFIGS :: "GPU list" where
  "GPU_CONFIGS =
    [\<lparr>vendor = ''Google Inc. (NVIDIA)'', renderer = ''ANGLE (NVIDIA, NVIDIA GeForce GTX 1650 Direct3D11 vs_5_0 ps_5_0, D3D11)''\<rparr>,
     \<lparr>vendor = ''Google Inc. (NVIDIA)'', renderer = ''ANGLE (NVIDIA, NVIDIA GeForce GTX 1660 SUPER Direct3D11 vs_5_0 ps_5_0, D3D11)''\<rparr>,
     \<lparr>vendor = ''Google Inc. (NVIDIA)'', renderer = ''ANGLE (NVIDIA, NVIDIA GeForce RTX 2060 Direct3D11 vs_5_0 ps_5_0, D3D11)''\<rparr>,
     \<lparr>vendor = ''Google Inc. (NVIDIA)'', renderer = ''ANGLE (NVIDIA, NVIDIA GeForce RTX 3060 Direct3D11 vs_5_0 ps_5_0, D3D11)''\<rparr>,
     \<lparr>vendor = ''Google Inc. (NVIDIA)'', renderer = ''ANGLE (NVIDIA, NVIDIA GeForce RTX 3070 Direct3D11 vs_5_0 ps_5_0, D3D11)''\<rparr>,
     \<lparr>vendor = ''Google Inc. (NVIDIA)'', renderer = ''ANGLE (NVIDIA, NVIDIA GeForce RTX 3080 Direct3D11 vs_5_0 ps_5_0, D3D11)''\<rparr>,
     \<lparr>vendor = ''Google Inc. (NVIDIA)'', renderer = ''ANGLE (NVIDIA, NVIDIA GeForce RTX 4060 Direct3D11 vs_5_0 ps_5_0, D3D11)''\<rparr>,
     \<lparr>vendor = ''Google Inc. (NVIDIA)'', renderer = ''ANGLE (NVIDIA, NVIDIA GeForce RTX 4070 Direct3D11 vs_5_0 ps_5_0, D3D11)''\<rparr>,
     \<lparr>vendor = ''Google Inc. (AMD)'', renderer = ''ANGLE (AMD, AMD Radeon RX 580 Series Direct3D11 vs_5_0 ps_5_0, D3D11)''\<rparr>,
     \<lparr>vendor = ''Google Inc. (AMD)'', renderer = ''ANGLE (AMD, AMD Radeon RX 5600 XT Direct3D11 vs_5_0 ps_5_0, D3D11)''\<rparr>,
     \<lparr>vendor = ''Google Inc. (AMD)'', renderer = ''ANGLE (AMD, AMD Radeon RX 6700 XT Direct3D11 vs_5_0 ps_5_0, D3D11)''\<rparr>,
     \<lparr>vendor = ''Google Inc. (AMD)'', renderer = ''ANGLE (AMD, AMD Radeon RX 6800 XT Direct3D11 vs_5_0 ps_5_0, D3D11)''\<rparr>,
     \<lparr>vendor = ''Google Inc. (Intel)'', renderer = ''ANGLE (Intel, Intel(R) UHD Graphics 630 Direct3D11 vs_5_0 ps_5_0, D3D11)''\<rparr>,
     \<lparr>vendor = ''Google Inc. (Intel)'', renderer = ''ANGLE (Intel, Intel(R) Iris(R) Xe Graphics Direct3D11 vs_5_0 ps_5_0, D3D11)''\<rparr>,
     \<lparr>vendor = ''Google Inc. (Intel)'', renderer = ''ANGLE (Intel, Intel(R) UHD Graphics 770 Direct3D11 vs_5_0 ps_5_0, D3D11)''\<rparr>,
     \<lparr>vendor = ''Google Inc. (Apple)'', renderer = ''ANGLE (Apple, Apple M1 Pro, OpenGL 4.1)''\<rparr>,
     \<lparr>vendor = ''Google Inc. (Apple)'', renderer = ''ANGLE (Apple, Apple M2, OpenGL 4.1)''\<rparr>,
     \<lparr>vendor = ''Google Inc. (Apple)'', renderer = ''ANGLE (Apple, Apple M2 Pro, OpenGL 4.1)''\<rparr>]"

text \<open>
  \<open>generateRandomGPU\<close> reads the module constant \<open>GPU_CONFIGS\<close>;
  \<open>generateRandomGPU_from\<close> is its body with the table as a parameter, so that the
  fallback \<open>candidates.length ? candidates : GPU_CONFIGS\<close> can be stated for a table whose
  filter is empty. The result is \<open>None\<close> when \<open>randomChoice\<close> returns \<open>undefined\<close>.
\<close>

definition generateRandomGPU_from :: "GPU list \<Rightarrow> PlatformType \<Rightarrow> rng \<Rightarrow> GPU option \<times> rng" where
  "generateRandomGPU_from table platform g =
     (if platform = Mac then
        (let candidates = filter (\<lambda>gpu. js_includes (vendor gpu) ''(Apple)'') table
         in randomChoice (if length candidates \<noteq> 0 then candidates else table) g)
      else if platform = Windows \<or> platform = Linux then
        (let candidates = filter (\<lambda>gpu. \<not> js_includes (vendor gpu) ''(Apple)'') table
         in randomChoice (if length candidates \<noteq> 0 then candidates else table) g)
      else randomChoice table g)"

definition generateRandomGPU :: "PlatformType \<Rightarrow> rng \<Rightarrow> GPU option \<times> rng" where
  "generateRandomGPU = generateRandomGPU_from GPU_CONFIGS"

text \<open>Reading \<open>gpu.vendor\<close> of \<open>undefined\<close> throws a \<open>TypeError\<close>.\<close>

definition getDefaultWebGLConfig :: "PlatformType \<Rightarrow> rng \<Rightarrow> js_error + WebGLConfig \<times> rng" where
  "getDefaultWebGLConfig platform g =
     (case generateRandomGPU platform g of
        (None, g1) \<Rightarrow> Inl TypeError
      | (Some gpu, g1) \<Rightarrow>
          (case generateWebGLSeed g1 of (s, g2) \<Rightarrow>
             Inr (\<lparr>webgl_enabled = True, webgl_vendor = vendor gpu,
                   webgl_renderer = renderer gpu, webgl_seed = s\<rparr>, g2)))"

section \<open>Hardware values: src/fingerprint/hardware.ts\<close>

record Resolution =
  width :: int
  height :: int

record Language =
  primary :: string
  lang_list :: "string list"

text \<open>
  The fields filled straight from \<open>randomChoice\<close> hold an option: \<open>None\<close> is the value
  \<open>undefined\<close>, which the object literal would store.
\<close>

record Hardware =
  hardwareConcurrency :: "int option"
  deviceMemory :: "int option"
  platform :: string
  language :: string
  languages :: "string list"
  timezone :: "string option"
  screenWidth :: int
  screenHeight :: int
  colorDepth :: int
  pixelRatio :: "real option"

record HardwareConfig = Hardware +
  hardware_enabled :: bool
  hardware_seed :: string

definition SCREEN_RESOLUTIONS :: "Resolution list" where
  "SCREEN_RESOLUTIONS =
    [\<lparr>width = 1920, height = 1080\<rparr>, \<lparr>width = 2560, height = 1440\<rparr>,
     \<lparr>width = 1366, height = 768\<rparr>, \<lparr>width = 1536, height = 864\<rparr>,
     \<lparr>width = 1440, height = 900\<rparr>, \<lparr>width = 1680, height = 1050\<rparr>,
     \<lparr>width = 2560, height = 1600\<rparr>, \<lparr>width = 3840, height = 2160\<rparr>]"

definition CPU_CORES :: "int list" where
  "CPU_CORES = [4, 6, 8, 12, 16]"

definition MEMORY_SIZES :: "int list" where
  "MEMORY_SIZES = [4, 8, 16, 32]"

definition LANGUAGES :: "Language list" where
  "LANGUAGES =
    [\<lparr>primary = ''en-US'', lang_list = [''en-US'', ''en'']\<rparr>,
     \<lparr>primary = ''en-GB'', lang_list = [''en-GB'', ''en'']\<rparr>,
     \<lparr>primary = ''zh-CN'', lang_list = [''zh-CN'', ''zh'']\<rparr>,
     \<lparr>primary = ''ja-JP'', lang_list = [''ja-JP'', ''ja'', ''en'']\<rparr>,
     \<lparr>primary = ''ko-KR'', lang_list = [''ko-KR'', ''ko'', ''en'']\<rparr>,
     \<lparr>primary = ''de-DE'', lang_list = [''de-DE'', ''de'', ''en'']\<rparr>,
     \<lparr>primary = ''fr-FR'', lang_list = [''fr-FR'', ''fr'', ''en'']\<rparr>]"

definition TIMEZONES :: "string list" where
  "TIMEZONES =
    [''America/New_York'', ''America/Los_Angeles'', ''America/Chicago'', ''Europe/London'',
     ''Europe/Paris'', ''Europe/Berlin'', ''Asia/Tokyo'', ''Asia/Shanghai'', ''Asia/Singapore'',
     ''Australia/Sydney'']"

text \<open>
  \<open>generateRandomHardware\<close>, in the order the source evaluates: \<open>screen\<close>, \<open>lang\<close>, the
  resolved platform (a draw only for \<open>random\<close>), then the fields of the object literal
  from top to bottom. \<open>lang.primary\<close> and \<open>screen.width\<close> throw a \<open>TypeError\<close> on
  \<open>undefined\<close>. An \<open>undefined\<close> resolved platform is neither \<open>'mac'\<close> nor \<open>'windows'\<close>.
\<close>

definition navigatorPlatform :: "PlatformType option \<Rightarrow> string" where
  "navigatorPlatform resolvedPlatform =
     (if resolvedPlatform = Some Mac then ''MacIntel''
      else if resolvedPlatform = Some Windows then ''Win32''
      else ''Linux x86_64'')"

definition generateRandomHardware :: "PlatformType \<Rightarrow> rng \<Rightarrow> js_error + Hardware \<times> rng" where
  "generateRandomHardware platform' g =
     (case randomChoice SCREEN_RESOLUTIONS g of (screen, g1) \<Rightarrow>
      case randomChoice LANGUAGES g1 of (lang, g2) \<Rightarrow>
      case (if platform' = Random then randomChoice [Windows, Mac, Linux] g2
            else (Some platform', g2)) of (resolvedPlatform, g3) \<Rightarrow>
      case randomChoice CPU_CORES g3 of (cores, g4) \<Rightarrow>
      case randomChoice MEMORY_SIZES g4 of (memory, g5) \<Rightarrow>
      case lang of None \<Rightarrow> Inl TypeError | Some l \<Rightarrow>
      case randomChoice TIMEZONES g5 of (tz, g6) \<Rightarrow>
      case screen of None \<Rightarrow> Inl TypeError | Some scr \<Rightarrow>
      case randomChoice [1, 5 / 4, 3 / 2, 2] g6 of (ratio, g7) \<Rightarrow>
        Inr (\<lparr>hardwareConcurrency = cores, deviceMemory = memory,
              platform = navigatorPlatform resolvedPlatform,
              language = primary l, languages = lang_list l, timezone = tz,
              screenWidth = width scr, screenHeight = height scr, colorDepth = 24,
              pixelRatio = ratio\<rparr>, g7))"

definition getDefaultHardwareConfig :: "PlatformType \<Rightarrow> rng \<Rightarrow> js_error + HardwareConfig \<times> rng" where
  "getDefaultHardwareConfig platform' g =
     (case generateRandomHardware platform' g of
        Inl e \<Rightarrow> Inl e
      | Inr (hardware, g1) \<Rightarrow>
          (case generateHardwareSeed g1 of (s, g2) \<Rightarrow>
             Inr (\<lparr>hardwareConcurrency = hardwareConcurrency hardware,
                   deviceMemory = deviceMemory hardware, platform = platform hardware,
                   language = language hardware, languages = languages hardware,
                   timezone = timezone hardware, screenWidth = screenWidth hardware,
                   screenHeight = screenHeight hardware, colorDepth = colorDepth hardware,
                   pixelRatio = pixelRatio hardware,
                   hardware_enabled = True, hardware_seed = s\<rparr>, g2)))"

section \<open>Profiles: src/fingerprint/profile.ts\<close>

datatype ProxyType = Http | Socks5 | Warp

record ProxyConfig =
  proxy_type :: ProxyType
  host :: "string option"
  port :: "int option"
  username :: "string option"
  password :: "string option"
  warpPort :: "int option"

record ProfileConfig =
  profile_id :: string
  name :: string
  createdAt :: string
  lastUsed :: string
  userAgent :: string
  profile_platform :: PlatformType
  canvas :: CanvasNoiseConfig
  webgl :: WebGLConfig
  hardware :: HardwareConfig
  proxy :: "ProxyConfig option"

text \<open>\<open>Partial<ProfileConfig>\<close>: every key may be absent.\<close>

record ProfileUpdates =
  upd_id :: "string option"
  upd_name :: "string option"
  upd_createdAt :: "string option"
  upd_lastUsed :: "string option"
  upd_userAgent :: "string option"
  upd_platform :: "PlatformType option"
  upd_canvas :: "CanvasNoiseConfig option"
  upd_webgl :: "WebGLConfig option"
  upd_hardware :: "HardwareConfig option"
  upd_proxy :: "ProxyConfig option option"

text \<open>
  The profiles directory holds one \<open>config.json\<close> per profile id: a map from the id to
  the configuration stored there. \<open>get\<close> returns \<open>null\<close>, here \<open>None\<close>, when the file
  does not exist. The clock (\<open>new Date().toISOString()\<close>) and \<open>uuidv4()\<close> are inputs.
\<close>

type_synonym profiles = "string \<rightharpoonup> ProfileConfig"

definition get :: "profiles \<Rightarrow> string \<Rightarrow> ProfileConfig option" where
  "get dir profileId = dir profileId"

text \<open>\<open>{ ...config, ...updates, lastUsed: now }\<close>.\<close>

definition spread :: "ProfileConfig \<Rightarrow> ProfileUpdates \<Rightarrow> string \<Rightarrow> ProfileConfig" where
  "spread config updates now =
     \<lparr>profile_id = (case upd_id updates of None \<Rightarrow> profile_id config | Some v \<Rightarrow> v),
      name = (case upd_name updates of None \<Rightarrow> name config | Some v \<Rightarrow> v),
      createdAt = (case upd_createdAt updates of None \<Rightarrow> createdAt config | Some v \<Rightarrow> v),
      lastUsed = now,
      userAgent = (case upd_userAgent updates of None \<Rightarrow> userAgent config | Some v \<Rightarrow> v),
      profile_platform =
        (case upd_platform updates of None \<Rightarrow> profile_platform config | Some v \<Rightarrow> v),
      canvas = (case upd_canvas updates of None \<Rightarrow> canvas config | Some v \<Rightarrow> v),
      webgl = (case upd_webgl updates of None \<Rightarrow> webgl config | Some v \<Rightarrow> v),
      hardware = (case upd_hardware updates of None \<Rightarrow> hardware config | Some v \<Rightarrow> v),
      proxy = (case upd_proxy updates of None \<Rightarrow> proxy config | Some v \<Rightarrow> v)\<rparr>"

definition update ::
  "profiles \<Rightarrow> string \<Rightarrow> ProfileUpdates \<Rightarrow> string \<Rightarrow> ProfileConfig option \<times> profiles" where
  "update dir profileId updates now =
     (case get dir profileId of
        None \<Rightarrow> (None, dir)
      | Some config \<Rightarrow>
          (let updated = spread config updates now
           in (Some updated, dir(profileId \<mapsto> updated))))"

text \<open>
  \<open>create\<close>: \<open>uuid\<close> is the result of \<open>uuidv4()\<close>, \<open>t1\<close> and \<open>t2\<close> are the two clock
  readings. The source calls \<open>getDefaultWebGLConfig()\<close> and \<open>getDefaultHardwareConfig()\<close>
  with no argument, so their parameter takes its default \<open>'random'\<close>.
\<close>

definition create ::
  "profiles \<Rightarrow> string \<Rightarrow> PlatformType \<Rightarrow> ProxyConfig option \<Rightarrow> string \<Rightarrow> string \<Rightarrow> string \<Rightarrow>
     rng \<Rightarrow> js_error + ProfileConfig \<times> profiles \<times> rng" where
  "create dir name' platform' proxy' uuid t1 t2 g =
     (case generateUA platform' g of (ua, g1) \<Rightarrow>
      case getDefaultCanvasConfig g1 of (cv, g2) \<Rightarrow>
      case getDefaultWebGLConfig Random g2 of Inl e \<Rightarrow> Inl e | Inr (wg, g3) \<Rightarrow>
      case getDefaultHardwareConfig Random g3 of Inl e \<Rightarrow> Inl e | Inr (hw, g4) \<Rightarrow>
        (let config = \<lparr>profile_id = uuid, name = name', createdAt = t1, lastUsed = t2,
                        userAgent = ua, profile_platform = platform', canvas = cv,
                        webgl = wg, hardware = hw, proxy = proxy'\<rparr>
         in Inr (config, dir(uuid \<mapsto> config), g4)))"

definition no_updates :: ProfileUpdates where
  "no_updates =
     \<lparr>upd_id = None, upd_name = None, upd_createdAt = None, upd_lastUsed = None,
      upd_userAgent = None, upd_platform = None, upd_canvas = None, upd_webgl = None,
      upd_hardware = None, upd_proxy = None\<rparr>"

definition regenerateFingerprint ::
  "profiles \<Rightarrow> string \<Rightarrow> string \<Rightarrow> rng \<Rightarrow> js_error + ProfileConfig option \<times> profiles \<times> rng" where
  "regenerateFingerprint dir profileId now g =
     (case get dir profileId of
        None \<Rightarrow> Inr (None, dir, g)
      | Some config \<Rightarrow>
          (case generateUA (profile_platform config) g of (ua, g1) \<Rightarrow>
           case getDefaultCanvasConfig g1 of (cv, g2) \<Rightarrow>
           case getDefaultWebGLConfig Random g2 of Inl e \<Rightarrow> Inl e | Inr (wg, g3) \<Rightarrow>
           case getDefaultHardwareConfig Random g3 of Inl e \<Rightarrow> Inl e | Inr (hw, g4) \<Rightarrow>
             (let updates = no_updates\<lparr>upd_userAgent := Some ua, upd_canvas := Some cv,
                                        upd_webgl := Some wg, upd_hardware := Some hw\<rparr>
              in case update dir profileId updates now of (result, dir') \<Rightarrow>
                   Inr (result, dir', g4))))"

text \<open>The four attribute sets of a profile, its fingerprint.\<close>

definition fingerprint ::
  "ProfileConfig \<Rightarrow> string \<times> CanvasNoiseConfig \<times> WebGLConfig \<times> HardwareConfig" where
  "fingerprint config = (userAgent config, canvas config, webgl config, hardware config)"

section \<open>The injected scripts in a document\<close>

subsection \<open>The overridden \<open>toDataURL\<close> of the canvas script\<close>

text \<open>
  A canvas element: its drawing buffer (the RGBA bytes \<open>getImageData\<close> reads and
  \<open>putImageData\<close> writes over the whole canvas), the kind of context it is bound to, and
  whether it is tainted by cross-origin content. \<open>getContext('2d')\<close> gives a context
  unless the canvas is bound to a WebGL context, and binds a fresh canvas to 2d. The
  original \<open>getImageData\<close> throws on a tainted canvas and on an empty rectangle.

  The original \<open>toDataURL(type, quality)\<close> first converts its arguments: \<open>type\<close> becomes a
  string, \<open>image/png\<close> when it is absent, and the conversion of a symbol throws a
  \<open>TypeError\<close>; \<open>quality\<close> is taken as it is. Then it throws on a tainted canvas, and
  otherwise encodes the buffer with the host's encoder \<open>enc\<close>, which sees the converted
  type and the quality.
\<close>

datatype ContextMode = NoContext | Context2D | ContextWebGL

record Canvas =
  pixels :: "int list"
  context_mode :: ContextMode
  tainted :: bool

definition getContext2d :: "Canvas \<Rightarrow> bool \<times> Canvas" where
  "getContext2d c =
     (case context_mode c of
        NoContext \<Rightarrow> (True, c\<lparr>context_mode := Context2D\<rparr>)
      | Context2D \<Rightarrow> (True, c)
      | ContextWebGL \<Rightarrow> (False, c))"

definition originalGetImageData :: "Canvas \<Rightarrow> js_error + int list" where
  "originalGetImageData c =
     (if pixels c = [] then Inl IndexSizeError
      else if tainted c then Inl SecurityError
      else Inr (pixels c))"

datatype TypeArg = NoType | TypeString string | TypeSymbol

definition convert_type :: "TypeArg \<Rightarrow> js_error + string" where
  "convert_type t =
     (case t of
        NoType \<Rightarrow> Inr ''image/png''
      | TypeString s \<Rightarrow> Inr s
      | TypeSymbol \<Rightarrow> Inl TypeError)"

definition originalToDataURL ::
  "(string \<Rightarrow> 'q \<Rightarrow> int list \<Rightarrow> string) \<Rightarrow> TypeArg \<times> 'q \<Rightarrow> Canvas \<Rightarrow> js_error + string" where
  "originalToDataURL enc args c =
     (case convert_type (fst args) of
        Inl e \<Rightarrow> Inl e
      | Inr t \<Rightarrow> if tainted c then Inl SecurityError else Inr (enc t (snd args) (pixels c)))"

definition putImageData :: "Canvas \<Rightarrow> int list \<Rightarrow> Canvas" where
  "putImageData c imageData = c\<lparr>pixels := imageData\<rparr>"

text \<open>
  The override returns the value or the exception of the call together with the canvas
  it leaves. An exception inside \<open>try\<close> is caught and the call falls through to the last
  line, on the canvas as it is then: when it is the original \<open>toDataURL\<close> that throws,
  the noise has been written and the two lines that restore the buffer are skipped.
\<close>

definition toDataURL ::
  "CanvasNoiseConfig \<Rightarrow> (string \<Rightarrow> 'q \<Rightarrow> int list \<Rightarrow> string) \<Rightarrow> TypeArg \<times> 'q \<Rightarrow> Canvas \<Rightarrow>
     (js_error + string) \<times> Canvas" where
  "toDataURL config enc args c =
     (if \<not> enabled config then (originalToDataURL enc args c, c)
      else
        (case getContext2d c of
           (False, c0) \<Rightarrow> (originalToDataURL enc args c0, c0)
         | (True, c0) \<Rightarrow>
             (case originalGetImageData c0 of
                Inl e \<Rightarrow> (originalToDataURL enc args c0, c0)
              | Inr imageData \<Rightarrow>
                  (let originalData = imageData;
                       noisyData = addNoise config imageData;
                       c1 = putImageData c0 noisyData
                   in case originalToDataURL enc args c1 of
                        Inl e \<Rightarrow> (originalToDataURL enc args c1, c1)
                      | Inr result \<Rightarrow> (Inr result, putImageData c1 originalData)))))"

subsection \<open>Installing the three scripts\<close>

text \<open>
  What a script changes in the document it runs in: the three markers on \<open>window\<close>
  (ordinary writable properties), the chain of wrappers around each overridden method
  (the configurations of the installed overrides, outermost first; empty for the native
  method), the configuration whose values the getters on \<open>navigator\<close>, \<open>screen\<close> and
  \<open>devicePixelRatio\<close> return, the fixed result of \<open>getTimezoneOffset\<close>, and the console.
  The script text returned by \<open>getCanvasInjectionScript\<close>, \<open>getWebGLInjectionScript\<close> and
  \<open>getHardwareInjectionScript\<close> is represented by its effect when evaluated.
\<close>

record Document =
  canvasNoiseApplied :: bool
  webglSpoofApplied :: bool
  hardwareSpoofApplied :: bool
  toDataURL_wrappers :: "CanvasNoiseConfig list"
  toBlob_wrappers :: "CanvasNoiseConfig list"
  getImageData_wrappers :: "CanvasNoiseConfig list"
  getContext_wrappers :: "WebGLConfig list"
  navigator_getters :: "HardwareConfig option"
  dateTimeFormat_wrappers :: "HardwareConfig list"
  timezoneOffset :: "int option"
  console :: "string list"

definition getCanvasInjectionScript :: "CanvasNoiseConfig \<Rightarrow> Document \<Rightarrow> Document" where
  "getCanvasInjectionScript config doc =
     (if canvasNoiseApplied doc then doc
      else doc\<lparr>canvasNoiseApplied := True,
               toDataURL_wrappers := config # toDataURL_wrappers doc,
               toBlob_wrappers := config # toBlob_wrappers doc,
               getImageData_wrappers := config # getImageData_wrappers doc,
               console := console doc @ [''[BFP] Canvas fingerprint noise applied'']\<rparr>)"

definition getWebGLInjectionScript :: "WebGLConfig \<Rightarrow> Document \<Rightarrow> Document" where
  "getWebGLInjectionScript config doc =
     (if webglSpoofApplied doc then doc
      else (let doc1 = doc\<lparr>webglSpoofApplied := True\<rparr>
            in if \<not> webgl_enabled config then doc1
               else doc1\<lparr>getContext_wrappers := config # getContext_wrappers doc1,
                         console := console doc1 @ [''[BFP] WebGL fingerprint spoofing applied'']\<rparr>))"

text \<open>\<open>offsets[tz] || 0\<close> of the hardware script.\<close>

definition getTimezoneOffset :: "string option \<Rightarrow> int" where
  "getTimezoneOffset tz =
     (case map_of
        [(''America/New_York'', 300), (''America/Los_Angeles'', 480), (''America/Chicago'', 360),
         (''Europe/London'', 0), (''Europe/Paris'', - 60), (''Europe/Berlin'', - 60),
         (''Asia/Tokyo'', - 540), (''Asia/Shanghai'', - 480), (''Asia/Singapore'', - 480),
         (''Australia/Sydney'', - 660)] (js_str tz) of
        None \<Rightarrow> 0
      | Some offset \<Rightarrow> offset)"

definition getHardwareInjectionScript :: "HardwareConfig \<Rightarrow> Document \<Rightarrow> Document" where
  "getHardwareInjectionScript config doc =
     (if hardwareSpoofApplied doc then doc
      else (let doc1 = doc\<lparr>hardwareSpoofApplied := True\<rparr>
            in if \<not> hardware_enabled config then doc1
               else doc1\<lparr>navigator_getters := Some config,
                         dateTimeFormat_wrappers := config # dateTimeFormat_wrappers doc1,
                         timezoneOffset := Some (getTimezoneOffset (timezone config)),
                         console := console doc1 @ [''[BFP] Hardware spoofing applied'']\<rparr>))"

section \<open>The launcher: src/browser/launcher.ts\<close>

text \<open>
  \<open>permissions.query\<close> is a method of the host. It needs the \<open>Permissions\<close> object as
  its receiver: called on it, it answers the query; called with any other receiver it
  returns a promise rejected with a \<open>TypeError\<close> (illegal invocation). A call with no
  receiver, \<open>f(parameters)\<close>, passes \<open>undefined\<close>, for which the host takes the global
  object. A promise is represented by its outcome, and \<open>answer\<close> is what the host answers.
\<close>

record PermissionDescriptor =
  permission_name :: string

record PermissionStatus =
  state :: string

datatype 'a Promise = Resolved 'a | Rejected js_error

datatype Receiver = PermissionsObject | GlobalObject

type_synonym query_method = "Receiver \<Rightarrow> PermissionDescriptor \<Rightarrow> PermissionStatus Promise"

definition native_query :: "(PermissionDescriptor \<Rightarrow> PermissionStatus Promise) \<Rightarrow> query_method" where
  "native_query answer this parameters =
     (if this = PermissionsObject then answer parameters else Rejected TypeError)"

text \<open>
  \<open>hideAutomationIndicators\<close> reads the method off the object into \<open>originalQuery\<close> and
  replaces it by an arrow function, which does not look at its own receiver and calls
  \<open>originalQuery(parameters)\<close> with none.
\<close>

definition query_override :: "query_method \<Rightarrow> query_method" where
  "query_override originalQuery this parameters =
     (if permission_name parameters = ''notifications''
      then Resolved \<lparr>state = ''denied''\<rparr>
      else originalQuery GlobalObject parameters)"

text \<open>
  The part of \<open>navigator\<close> the function changes: whether \<open>webdriver\<close> was deleted from the
  prototype, the names of the plugins and the types of the MIME types the replaced
  getters list, and the method \<open>permissions.query\<close>. A page's call
  \<open>navigator.permissions.query(parameters)\<close> is \<open>permissions_query nav PermissionsObject parameters\<close>.
\<close>

record Navigator =
  webdriver_deleted :: bool
  plugins :: "string list"
  mimeTypes :: "string list"
  permissions_query :: query_method

definition hideAutomationIndicators :: "Navigator \<Rightarrow> Navigator" where
  "hideAutomationIndicators nav =
     nav\<lparr>webdriver_deleted := True,
         plugins := [''Chrome PDF Plugin'', ''Chrome PDF Viewer'', ''Native Client''],
         mimeTypes := [''application/x-google-chrome-pdf'', ''application/pdf'',
                       ''application/x-nacl'', ''application/x-pnacl''],
         permissions_query := query_override (permissions_query nav)\<rparr>"

section \<open>Properties of the canvas noise\<close>

lemma noise_channel_other:
  "m \<noteq> k \<Longrightarrow> snd (noise_channel ns k st) ! m = snd st ! m"
  by (cases st) (simp add: noise_channel_def Let_def split: prod.splits)

lemma noise_channel_range:
  "k < length (snd st) \<Longrightarrow>
     0 \<le> snd (noise_channel ns k st) ! k \<and> snd (noise_channel ns k st) ! k \<le> 255"
  by (cases st) (simp add: noise_channel_def Let_def split: prod.splits)

lemma noise_pixel_other:
  "m \<noteq> i \<Longrightarrow> m \<noteq> i + 1 \<Longrightarrow> m \<noteq> i + 2 \<Longrightarrow> snd (noise_pixel ns i st) ! m = snd st ! m"
  by (simp add: noise_pixel_def noise_channel_other)

lemma noise_pixel_range:
  assumes "m < length (snd st)" and "m = i \<or> m = i + 1 \<or> m = i + 2"
  shows "0 \<le> snd (noise_pixel ns i st) ! m \<and> snd (noise_pixel ns i st) ! m \<le> 255"
  using assms
  by (auto simp: noise_pixel_def noise_channel_other noise_channel_range length_noise_channel)

lemma addNoise_loop_length: "length (addNoise_loop ns i st) = length (snd st)"
proof (induction ns i st rule: addNoise_loop.induct)
  case (1 ns i st)
  show ?case
  proof (cases "i < length (snd st)")
    case True
    with "1" show ?thesis
      by (subst addNoise_loop.simps) (simp add: length_noise_pixel)
  next
    case False
    then show ?thesis by (subst addNoise_loop.simps) simp
  qed
qed

lemma addNoise_loop_below: "m < i \<Longrightarrow> addNoise_loop ns i st ! m = snd st ! m"
proof (induction ns i st rule: addNoise_loop.induct)
  case (1 ns i st)
  show ?case
  proof (cases "i < length (snd st)")
    case True
    have "addNoise_loop ns i st ! m = addNoise_loop ns (i + 4) (noise_pixel ns i st) ! m"
      using True by (subst addNoise_loop.simps) simp
    also have "\<dots> = snd (noise_pixel ns i st) ! m"
      using "1.IH" [OF True] "1.prems" by simp
    also have "\<dots> = snd st ! m"
      using "1.prems" by (simp add: noise_pixel_other)
    finally show ?thesis .
  next
    case False
    then show ?thesis by (subst addNoise_loop.simps) simp
  qed
qed

lemma addNoise_loop_alpha:
  "i mod 4 = 0 \<Longrightarrow> m mod 4 = 3 \<Longrightarrow> addNoise_loop ns i st ! m = snd st ! m"
proof (induction ns i st rule: addNoise_loop.induct)
  case (1 ns i st)
  show ?case
  proof (cases "i < length (snd st)")
    case True
    have ne: "m \<noteq> i" "m \<noteq> i + 1" "m \<noteq> i + 2"
      using "1.prems" by presburger+
    have "addNoise_loop ns i st ! m = addNoise_loop ns (i + 4) (noise_pixel ns i st) ! m"
      using True by (subst addNoise_loop.simps) simp
    also have "\<dots> = snd (noise_pixel ns i st) ! m"
      using "1.IH" [OF True] "1.prems" by simp
    also have "\<dots> = snd st ! m"
      using ne by (simp add: noise_pixel_other)
    finally show ?thesis .
  next
    case False
    then show ?thesis by (subst addNoise_loop.simps) simp
  qed
qed

lemma addNoise_loop_rgb:
  "i mod 4 = 0 \<Longrightarrow> i \<le> m \<Longrightarrow> m < length (snd st) \<Longrightarrow> m mod 4 \<noteq> 3 \<Longrightarrow>
     0 \<le> addNoise_loop ns i st ! m \<and> addNoise_loop ns i st ! m \<le> 255"
proof (induction ns i st rule: addNoise_loop.induct)
  case (1 ns i st)
  have lt: "i < length (snd st)" using "1.prems" by simp
  have unfold: "addNoise_loop ns i st = addNoise_loop ns (i + 4) (noise_pixel ns i st)"
    using lt by (subst addNoise_loop.simps) simp
  show ?case
  proof (cases "m < i + 4")
    case True
    then have here: "m = i \<or> m = i + 1 \<or> m = i + 2"
      using "1.prems" by presburger
    have "addNoise_loop ns (i + 4) (noise_pixel ns i st) ! m = snd (noise_pixel ns i st) ! m"
      using True by (rule addNoise_loop_below)
    then show ?thesis
      using noise_pixel_range [OF "1.prems"(3) here, of ns] unfold by simp
  next
    case False
    then show ?thesis
      using "1.IH" [OF lt] "1.prems" unfold by (simp add: length_noise_pixel)
  qed
qed

text \<open>
  Claim C10. For every image data array and every noise configuration, \<open>addNoise\<close>
  returns an array of the same length, leaves every fourth byte (the alpha channel)
  as it was, and leaves every red, green and blue byte within 0..255.
\<close>

theorem addNoise_clamps_rgb_keeps_alpha:
  "length (addNoise config imageData) = length imageData \<and>
   (\<forall>k < length imageData.
      (k mod 4 = 3 \<longrightarrow> addNoise config imageData ! k = imageData ! k) \<and>
      (k mod 4 \<noteq> 3 \<longrightarrow>
         0 \<le> addNoise config imageData ! k \<and> addNoise config imageData ! k \<le> 255))"
  by (simp add: addNoise_def addNoise_loop_length addNoise_loop_alpha addNoise_loop_rgb)

theorem addNoise_clamps_rgb_keeps_alpha_witness:
  "length (addNoise \<lparr>enabled = True, noise = 3, seed = ''ab''\<rparr> [10, 20, 30, 40]) = 4 \<and>
   addNoise \<lparr>enabled = True, noise = 3, seed = ''ab''\<rparr> [10, 20, 30, 40] ! 3 = 40 \<and>
   0 \<le> addNoise \<lparr>enabled = True, noise = 3, seed = ''ab''\<rparr> [10, 20, 30, 40] ! 0 \<and>
   addNoise \<lparr>enabled = True, noise = 3, seed = ''ab''\<rparr> [10, 20, 30, 40] ! 0 \<le> 255"
proof -
  let ?out = "addNoise \<lparr>enabled = True, noise = 3, seed = ''ab''\<rparr> [10, 20, 30, 40]"
  note h = addNoise_clamps_rgb_keeps_alpha
    [of "\<lparr>enabled = True, noise = 3, seed = ''ab''\<rparr>" "[10, 20, 30, 40]"]
  have len: "length ?out = 4"
    using h [THEN conjunct1] by simp
  have alpha: "?out ! 3 = 40"
    using h [THEN conjunct2, THEN spec [where x = 3]] by simp
  have red: "0 \<le> ?out ! 0 \<and> ?out ! 0 \<le> 255"
    using h [THEN conjunct2, THEN spec [where x = 0]] by simp
  from len alpha red show ?thesis by simp
qed

subsection \<open>The overridden \<open>toDataURL\<close>\<close>

text \<open>
  When the arguments convert, the override returns the encoding of the noised pixels
  where it adds noise (enabled, a 2d context available, a readable non-empty canvas) and
  the result of the original otherwise, and the drawing buffer is as before the call.
\<close>

lemma toDataURL_converted:
  assumes "convert_type (fst args) = Inr t"
  shows "toDataURL config enc args c =
     (if enabled config \<and> context_mode c \<noteq> ContextWebGL \<and> \<not> tainted c \<and> pixels c \<noteq> []
      then Inr (enc t (snd args) (addNoise config (pixels c)))
      else originalToDataURL enc args c,
      if enabled config \<and> context_mode c = NoContext then c\<lparr>context_mode := Context2D\<rparr> else c)"
  by (cases "context_mode c")
     (simp_all add: toDataURL_def getContext2d_def originalGetImageData_def
        originalToDataURL_def putImageData_def assms)

lemma toDataURL_converted_round_trip:
  assumes "convert_type (fst args) = Inr t"
  shows "fst (toDataURL config enc args (snd (toDataURL config enc args c))) =
           fst (toDataURL config enc args c)"
    and "pixels (snd (toDataURL config enc args c)) = pixels c"
    and "pixels (snd (toDataURL config enc args (snd (toDataURL config enc args c)))) = pixels c"
  by (cases "context_mode c";
      simp add: toDataURL_converted [OF assms] originalToDataURL_def assms)+

text \<open>
  When the conversion of the arguments throws, the original \<open>toDataURL\<close> throws inside
  \<open>try\<close>, after \<open>putImageData(noisyData)\<close>: the exception is caught, the last line throws
  it again, and the drawing buffer keeps the noise.
\<close>

lemma toDataURL_unconverted:
  assumes "convert_type (fst args) = Inl e"
    and "enabled config" and "context_mode c \<noteq> ContextWebGL" and "\<not> tainted c"
    and "pixels c \<noteq> []"
  shows "fst (toDataURL config enc args c) = Inl e"
    and "pixels (snd (toDataURL config enc args c)) = addNoise config (pixels c)"
  using assms
  by (cases "context_mode c";
      simp add: toDataURL_def getContext2d_def originalGetImageData_def
        originalToDataURL_def putImageData_def)+

text \<open>
  A seed that \<open>generateCanvasNoiseSeed\<close> can return and for which the noise is known
  exactly: the hash of the seed followed by \<open>_canvas\<close> is 0, so \<open>Math.sin(hash) * 10000\<close>
  is 0 at every call, the generator returns 0 every time, and with \<open>noise: 3\<close> every
  \<open>noise\<close> is \<open>Math.floor(-0.15) = -1\<close>.
\<close>

lemma seed_hash_zero: "seed_hash ''a3f1c09e7b52d864000000007a41bc32_canvas'' = 0"
  by (simp add: seed_hash_def)

lemma random_call_zero: "random_call 0 = (0, 0)"
  by (simp add: random_call_def)

lemma noise_channel_zero:
  "k < length data \<Longrightarrow>
   noise_channel (3 / 100) k (0, data) = (0, data[k := max 0 (min 255 (data ! k - 1))])"
proof -
  have "\<lfloor>(0 - 1 / 2) * (3 / 100) * 10 :: real\<rfloor> = - 1"
    by (simp add: floor_eq_iff)
  then show "k < length data \<Longrightarrow> ?thesis"
    by (simp add: noise_channel_def random_call_zero Let_def)
qed

lemma addNoise_zero_hash_pixel:
  "addNoise \<lparr>enabled = True, noise = 3, seed = ''a3f1c09e7b52d864000000007a41bc32''\<rparr>
     [100, 100, 100, 255] = [99, 99, 99, 255]"
proof -
  have "addNoise_loop (3 / 100) 0 (0, [100, 100, 100, 255]) = [99, 99, 99, 255]"
    apply (subst addNoise_loop.simps)
    apply (simp add: noise_pixel_def noise_channel_zero)
    apply (subst addNoise_loop.simps)
    apply simp
    done
  then show ?thesis
    by (simp add: addNoise_def seededRandom_def seed_hash_zero)
qed

text \<open>
  Claim C3 on a call whose arguments do not convert. The canvas script runs with the
  configuration \<open>enabled: true, noise: 3\<close> and the seed above; a canvas with a 2d context
  holds the one opaque pixel (100, 100, 100, 255). \<open>toDataURL(Symbol())\<close> throws a
  \<open>TypeError\<close> and leaves the pixel (99, 99, 99, 255) in the drawing buffer, where the
  claim says that the buffer is as before the call. A call \<open>toDataURL()\<close> on the canvas
  left so returns the encoding of (98, 98, 98, 255), while on the canvas as it was it
  returns the encoding of (99, 99, 99, 255) and leaves the buffer as it was.
\<close>

theorem toDataURL_symbol_keeps_noise:
  "toDataURL \<lparr>enabled = True, noise = 3, seed = ''a3f1c09e7b52d864000000007a41bc32''\<rparr> enc
     (TypeSymbol, quality)
     \<lparr>pixels = [100, 100, 100, 255], context_mode = Context2D, tainted = False\<rparr> =
     (Inl TypeError, \<lparr>pixels = [99, 99, 99, 255], context_mode = Context2D, tainted = False\<rparr>) \<and>
   toDataURL \<lparr>enabled = True, noise = 3, seed = ''a3f1c09e7b52d864000000007a41bc32''\<rparr> enc
     (NoType, quality)
     \<lparr>pixels = [99, 99, 99, 255], context_mode = Context2D, tainted = False\<rparr> =
     (Inr (enc ''image/png'' quality [98, 98, 98, 255]),
      \<lparr>pixels = [99, 99, 99, 255], context_mode = Context2D, tainted = False\<rparr>) \<and>
   toDataURL \<lparr>enabled = True, noise = 3, seed = ''a3f1c09e7b52d864000000007a41bc32''\<rparr> enc
     (NoType, quality)
     \<lparr>pixels = [100, 100, 100, 255], context_mode = Context2D, tainted = False\<rparr> =
     (Inr (enc ''image/png'' quality [99, 99, 99, 255]),
      \<lparr>pixels = [100, 100, 100, 255], context_mode = Context2D, tainted = False\<rparr>)"
proof -
  let ?config = "\<lparr>enabled = True, noise = 3, seed = ''a3f1c09e7b52d864000000007a41bc32''\<rparr>"
  have n2: "addNoise ?config [99, 99, 99, 255] = [98, 98, 98, 255]"
  proof -
    have "addNoise_loop (3 / 100) 0 (0, [99, 99, 99, 255]) = [98, 98, 98, 255]"
      apply (subst addNoise_loop.simps)
      apply (simp add: noise_pixel_def noise_channel_zero)
      apply (subst addNoise_loop.simps)
      apply simp
      done
    then show ?thesis
      by (simp add: addNoise_def seededRandom_def seed_hash_zero)
  qed
  have a: "toDataURL ?config enc (TypeSymbol, quality)
      \<lparr>pixels = [100, 100, 100, 255], context_mode = Context2D, tainted = False\<rparr> =
      (Inl TypeError, \<lparr>pixels = [99, 99, 99, 255], context_mode = Context2D, tainted = False\<rparr>)"
    by (simp add: toDataURL_def getContext2d_def originalGetImageData_def originalToDataURL_def
        putImageData_def convert_type_def addNoise_zero_hash_pixel del: One_nat_def)
  have b: "toDataURL ?config enc (NoType, quality)
      \<lparr>pixels = [99, 99, 99, 255], context_mode = Context2D, tainted = False\<rparr> =
      (Inr (enc ''image/png'' quality [98, 98, 98, 255]),
       \<lparr>pixels = [99, 99, 99, 255], context_mode = Context2D, tainted = False\<rparr>)"
    by (simp add: toDataURL_def getContext2d_def originalGetImageData_def originalToDataURL_def
        putImageData_def convert_type_def n2)
  have c: "toDataURL ?config enc (NoType, quality)
      \<lparr>pixels = [100, 100, 100, 255], context_mode = Context2D, tainted = False\<rparr> =
      (Inr (enc ''image/png'' quality [99, 99, 99, 255]),
       \<lparr>pixels = [100, 100, 100, 255], context_mode = Context2D, tainted = False\<rparr>)"
    by (simp add: toDataURL_def getContext2d_def originalGetImageData_def originalToDataURL_def
        putImageData_def convert_type_def addNoise_zero_hash_pixel)
  from a b c show ?thesis by (intro conjI)
qed

section \<open>Properties of the injected scripts\<close>

text \<open>
  Claim C5. For each of the three scripts (canvas, WebGL, hardware) and every document,
  running the script again in a document where it has already run changes nothing, also
  when the second run carries another configuration: the marker is tested and set
  before any other work.
\<close>

theorem scripts_install_once:
  "getCanvasInjectionScript config2 (getCanvasInjectionScript config1 doc) =
     getCanvasInjectionScript config1 doc \<and>
   getWebGLInjectionScript wconfig2 (getWebGLInjectionScript wconfig1 doc) =
     getWebGLInjectionScript wconfig1 doc \<and>
   getHardwareInjectionScript hconfig2 (getHardwareInjectionScript hconfig1 doc) =
     getHardwareInjectionScript hconfig1 doc"
  by (simp add: getCanvasInjectionScript_def getWebGLInjectionScript_def
      getHardwareInjectionScript_def Let_def)

subsection \<open>The permissions query of the launcher\<close>

text \<open>
  After \<open>hideAutomationIndicators\<close> has run on the host's navigator, once or several
  times, a query named \<open>notifications\<close> resolves to the state \<open>denied\<close>, and a query of any
  other name is rejected with a \<open>TypeError\<close>: it reaches the method of the host without
  its receiver.
\<close>

lemma permissions_query_after_runs:
  assumes "permissions_query nav = native_query answer"
  shows "permissions_query ((hideAutomationIndicators ^^ Suc n) nav) this parameters =
     (if permission_name parameters = ''notifications''
      then Resolved \<lparr>state = ''denied''\<rparr>
      else Rejected TypeError)"
proof (induction n arbitrary: this)
  case 0
  show ?case
    by (simp add: hideAutomationIndicators_def query_override_def assms native_query_def)
next
  case (Suc n)
  have "permissions_query ((hideAutomationIndicators ^^ Suc (Suc n)) nav) this parameters =
        query_override (permissions_query ((hideAutomationIndicators ^^ Suc n) nav))
          this parameters"
    by (simp add: hideAutomationIndicators_def)
  also have "\<dots> = (if permission_name parameters = ''notifications''
      then Resolved \<lparr>state = ''denied''\<rparr>
      else Rejected TypeError)"
    unfolding query_override_def using Suc.IH [of GlobalObject] by simp
  finally show ?case .
qed

text \<open>
  Claim C8 on the forwarding. On a navigator whose host grants every permission, a
  page that queries \<open>geolocation\<close> before \<open>hideAutomationIndicators\<close> has run gets the
  state \<open>granted\<close>. After it has run the same query is rejected with a \<open>TypeError\<close>, where
  the claim says that it returns what the original \<open>permissions.query\<close> returns. The
  query \<open>notifications\<close> resolves to \<open>denied\<close>, as the claim says.
\<close>

theorem permissions_query_forwarding_rejects:
  "permissions_query
     \<lparr>webdriver_deleted = False, plugins = [], mimeTypes = [],
      permissions_query = native_query (\<lambda>p. Resolved \<lparr>state = ''granted''\<rparr>)\<rparr>
     PermissionsObject \<lparr>permission_name = ''geolocation''\<rparr> = Resolved \<lparr>state = ''granted''\<rparr> \<and>
   permissions_query
     (hideAutomationIndicators
        \<lparr>webdriver_deleted = False, plugins = [], mimeTypes = [],
         permissions_query = native_query (\<lambda>p. Resolved \<lparr>state = ''granted''\<rparr>)\<rparr>)
     PermissionsObject \<lparr>permission_name = ''geolocation''\<rparr> = Rejected TypeError \<and>
   permissions_query
     (hideAutomationIndicators
        \<lparr>webdriver_deleted = False, plugins = [], mimeTypes = [],
         permissions_query = native_query (\<lambda>p. Resolved \<lparr>state = ''granted''\<rparr>)\<rparr>)
     PermissionsObject \<lparr>permission_name = ''notifications''\<rparr> = Resolved \<lparr>state = ''denied''\<rparr>"
  by (simp add: hideAutomationIndicators_def query_override_def native_query_def)

section \<open>Properties of the generators\<close>

subsection \<open>The random source\<close>

lemma rng_drop_apply: "rng_drop k g n = g (n + k)"
  by (simp add: rng_drop_def)

lemma rng_drop_drop: "rng_drop a (rng_drop b g) = rng_drop (a + b) g"
  by (simp add: rng_drop_def fun_eq_iff add.assoc)

lemmas rng_simps = rng_drop_apply rng_drop_drop numeral_2_eq_2 [symmetric]

lemma valid_rng_drop: "valid_rng g \<Longrightarrow> valid_rng (rng_drop k g)"
  by (simp add: valid_rng_def rng_drop_def)

lemma valid_rng_at: "valid_rng g \<Longrightarrow> 0 \<le> g n \<and> g n < 1"
  by (simp add: valid_rng_def)

subsection \<open>The weighted choice of the platform\<close>

lemma double_exponent_eq:
  assumes "2 powi k \<le> x" and "x < 2 powi (k + 1)"
  shows "double_exponent x = k"
proof -
  have "(0::real) < 2 powi k" by simp
  with assms(1) have pos: "0 < x" by linarith
  have "2 powr (of_int k) = (2::real) powi k" "2 powr (of_int (k + 1)) = (2::real) powi (k + 1)"
    by (simp_all only: powr_real_of_int [of 2] power_int_def power_inverse zero_less_numeral
        if_True)
  then have "2 powr (of_int k) \<le> x" "x < 2 powr (of_int k + 1)"
    using assms by simp_all
  then show ?thesis
    unfolding double_exponent_def using pos
    by (simp add: floor_log_eq_powr_iff)
qed

lemma round_double_in:
  assumes "2 powi k \<le> x" and "x < 2 powi (k + 1)"
  shows "round_double x = of_int (round_ties_even (x / 2 powi (k - 52))) * 2 powi (k - 52)"
proof -
  have "(0::real) < 2 powi k" by simp
  with assms(1) have pos: "0 < x" by linarith
  then show ?thesis
    by (simp add: round_double_def double_exponent_eq [OF assms])
qed

text \<open>The doubles of the literals \<open>0.7\<close>, \<open>0.2\<close>, \<open>0.1\<close> and \<open>0.9\<close>.\<close>

lemma double_0_7: "round_double (7 / 10) = 3152519739159347 / 2 ^ 52"
  by (subst round_double_in [of "- 1"])
     (simp_all add: power_int_minus round_ties_even_def Let_def)

lemma double_0_2: "round_double (2 / 10) = 3602879701896397 / 2 ^ 54"
  by (subst round_double_in [of "- 3"])
     (simp_all add: power_int_minus round_ties_even_def Let_def)

lemma double_0_1: "round_double (1 / 10) = 3602879701896397 / 2 ^ 55"
  by (subst round_double_in [of "- 4"])
     (simp_all add: power_int_minus round_ties_even_def Let_def)

lemma double_0_9: "round_double (9 / 10) = 8106479329266893 / 2 ^ 53"
  by (subst round_double_in [of "- 1"])
     (simp_all add: power_int_minus round_ties_even_def Let_def)

text \<open>
  The three values of \<open>cumulative\<close>: \<open>0 + 0.7\<close> is \<open>0.7\<close>; \<open>0.7 + 0.2\<close> lies halfway
  between two doubles and is rounded down, to \<open>0.8999999999999999\<close>, the double before
  \<open>0.9\<close>; adding \<open>0.1\<close> gives \<open>0.9999999999999999\<close>, the double before \<open>1\<close>.
\<close>

lemma cumulative_1: "double_add 0 (round_double (7 / 10)) = 3152519739159347 / 2 ^ 52"
  unfolding double_add_def double_0_7
  by (subst round_double_in [of "- 1"])
     (simp_all add: power_int_minus round_ties_even_def Let_def)

lemma cumulative_2:
  "double_add (3152519739159347 / 2 ^ 52) (round_double (2 / 10)) = 2026619832316723 / 2 ^ 51"
  unfolding double_add_def double_0_2
  by (subst round_double_in [of "- 1"])
     (simp_all add: power_int_minus round_ties_even_def Let_def)

lemma cumulative_3:
  "double_add (2026619832316723 / 2 ^ 51) (round_double (1 / 10)) = 9007199254740991 / 2 ^ 53"
  unfolding double_add_def double_0_1
  by (subst round_double_in [of "- 1"])
     (simp_all add: power_int_minus round_ties_even_def Let_def)

lemma resolvePlatform_eq:
  "resolvePlatform r =
     (if r < 3152519739159347 / 2 ^ 52 then Windows
      else if r < 2026619832316723 / 2 ^ 51 then Mac
      else if r < 9007199254740991 / 2 ^ 53 then Linux
      else Random)"
  unfolding resolvePlatform_def
  by (simp only: zip_Cons_Cons zip_Nil weighted_loop.simps Let_def cumulative_1 cumulative_2
      cumulative_3)

text \<open>
  Away from the two rounded sums the choice is the one of the weights 0.7, 0.2 and 0.1:
  windows below \<open>0.7\<close>, mac from \<open>0.7\<close> and below \<open>0.9\<close>, linux from \<open>0.9\<close>, for every draw
  below \<open>0.8999999999999999\<close> and every draw from \<open>0.9\<close> and below \<open>0.9999999999999999\<close>.
\<close>

lemma resolvePlatform_weights:
  assumes "r < 2026619832316723 / 2 ^ 51 \<or>
           (round_double (9 / 10) \<le> r \<and> r < 9007199254740991 / 2 ^ 53)"
  shows "resolvePlatform r =
           (if r < round_double (7 / 10) then Windows
            else if r < round_double (9 / 10) then Mac else Linux)"
  using assms by (auto simp: resolvePlatform_eq double_0_7 double_0_9)

text \<open>
  Claim C6 at the rounded thresholds. With the platform choice \<open>random\<close> and the draw
  \<open>0.8999999999999999\<close>, a double from \<open>0.7\<close> and below \<open>0.9\<close> for which the claim says mac,
  no threshold before the third is passed and \<open>generateUA\<close> goes on as for linux. With
  the draw \<open>0.9999999999999999\<close>, from \<open>0.9\<close> and below \<open>1\<close>, for which the claim says linux,
  no threshold is passed at all and \<open>generateUA\<close> generates the Windows user agent of the
  \<open>default\<close> branch.
\<close>

theorem generateUA_random_at_rounded_thresholds:
  "round_double (2026619832316723 / 2 ^ 51) = 2026619832316723 / 2 ^ 51 \<and>
   round_double (7 / 10) \<le> 2026619832316723 / 2 ^ 51 \<and>
   (7 / 10 :: real) \<le> 2026619832316723 / 2 ^ 51 \<and>
   (2026619832316723 / 2 ^ 51 :: real) < round_double (9 / 10) \<and>
   (2026619832316723 / 2 ^ 51 :: real) < 9 / 10 \<and>
   resolvePlatform (2026619832316723 / 2 ^ 51) = Linux \<and>
   generateUA Random (\<lambda>n. 2026619832316723 / 2 ^ 51) =
     generateLinuxUA (\<lambda>n. 2026619832316723 / 2 ^ 51) \<and>
   round_double (9007199254740991 / 2 ^ 53) = 9007199254740991 / 2 ^ 53 \<and>
   round_double (9 / 10) \<le> 9007199254740991 / 2 ^ 53 \<and>
   (9 / 10 :: real) \<le> 9007199254740991 / 2 ^ 53 \<and>
   (9007199254740991 / 2 ^ 53 :: real) < 1 \<and>
   resolvePlatform (9007199254740991 / 2 ^ 53) = Random \<and>
   generateUA Random (\<lambda>n. 9007199254740991 / 2 ^ 53) =
     generateWindowsUA (\<lambda>n. 9007199254740991 / 2 ^ 53)"
proof -
  have d0: "round_double (2026619832316723 / 2 ^ 51) = 2026619832316723 / 2 ^ 51"
    by (subst round_double_in [of "- 1"])
       (simp_all add: power_int_minus round_ties_even_def Let_def)
  have d1: "round_double (9007199254740991 / 2 ^ 53) = 9007199254740991 / 2 ^ 53"
    by (subst round_double_in [of "- 1"])
       (simp_all add: power_int_minus round_ties_even_def Let_def)
  have r0: "resolvePlatform (2026619832316723 / 2 ^ 51) = Linux"
    by (simp add: resolvePlatform_eq)
  have r1: "resolvePlatform (9007199254740991 / 2 ^ 53) = Random"
    by (simp add: resolvePlatform_eq)
  have u0: "generateUA Random (\<lambda>n. 2026619832316723 / 2 ^ 51) =
      generateLinuxUA (\<lambda>n. 2026619832316723 / 2 ^ 51)"
    by (simp add: generateUA_def Math_random_def resolvePlatform_eq rng_drop_def)
  have u1: "generateUA Random (\<lambda>n. 9007199254740991 / 2 ^ 53) =
      generateWindowsUA (\<lambda>n. 9007199254740991 / 2 ^ 53)"
    by (simp add: generateUA_def Math_random_def resolvePlatform_eq rng_drop_def)
  have b: "round_double (7 / 10) \<le> 2026619832316723 / 2 ^ 51"
      "(7 / 10 :: real) \<le> 2026619832316723 / 2 ^ 51"
      "(2026619832316723 / 2 ^ 51 :: real) < round_double (9 / 10)"
      "(2026619832316723 / 2 ^ 51 :: real) < 9 / 10"
      "round_double (9 / 10) \<le> 9007199254740991 / 2 ^ 53"
      "(9 / 10 :: real) \<le> 9007199254740991 / 2 ^ 53"
      "(9007199254740991 / 2 ^ 53 :: real) < 1"
    by (simp_all add: double_0_7 double_0_9)
  from d0 d1 r0 r1 u0 u1 b show ?thesis by (intro conjI)
qed

subsection \<open>What the generators draw\<close>

lemma randomInt_eq:
  "randomInt lo hi g = (\<lfloor>g 0 * of_int (hi - lo + 1)\<rfloor> + lo, rng_drop 1 g)"
  by (simp add: randomInt_def Math_random_def)

lemma randomChoice_eq:
  "randomChoice arr g = (js_index arr \<lfloor>g 0 * of_nat (length arr)\<rfloor>, rng_drop 1 g)"
  by (simp add: randomChoice_def Math_random_def)

lemma js_index_valid:
  assumes "0 \<le> r" and "r < 1" and "arr \<noteq> []"
  shows "\<exists>x \<in> set arr. js_index arr \<lfloor>r * of_nat (length arr)\<rfloor> = Some x"
proof -
  let ?n = "length arr"
  have pos: "0 < ?n" using assms(3) by simp
  have "0 \<le> r * of_nat ?n" using assms(1) by simp
  then have lo: "0 \<le> \<lfloor>r * of_nat ?n\<rfloor>" by simp
  have "r * of_nat ?n < 1 * of_nat ?n"
    using assms(2) pos by (intro mult_strict_right_mono) simp_all
  then have "r * of_nat ?n < of_int (int ?n)" by simp
  then have hi: "\<lfloor>r * of_nat ?n\<rfloor> < int ?n" by (simp only: floor_less_iff)
  from lo hi have "nat \<lfloor>r * of_nat ?n\<rfloor> < ?n" by linarith
  then have "arr ! nat \<lfloor>r * of_nat ?n\<rfloor> \<in> set arr" by simp
  with lo hi show ?thesis by (simp add: js_index_def)
qed

lemma generateChromeVersion_eq:
  "generateChromeVersion g =
     (js_int_str (\<lfloor>g 0 * 11\<rfloor> + 110) @ ''.'' @ js_int_str 0 @ ''.'' @
      js_int_str (\<lfloor>g 1 * 1001\<rfloor> + 5000) @ ''.'' @ js_int_str (\<lfloor>g 2 * 201\<rfloor>), rng_drop 3 g)"
  by (simp add: generateChromeVersion_def randomInt_eq CHROME_VERSIONS_min_def
      CHROME_VERSIONS_max_def rng_simps)

lemma generateWindowsUA_snd: "snd (generateWindowsUA g) = rng_drop 5 g"
  by (simp add: generateWindowsUA_def generateChromeVersion_eq randomChoice_eq rng_simps)

lemma generateMacUA_snd: "snd (generateMacUA g) = rng_drop 4 g"
  by (simp add: generateMacUA_def generateChromeVersion_eq randomChoice_eq rng_simps)

lemma generateLinuxUA_snd: "snd (generateLinuxUA g) = rng_drop 3 g"
  by (simp add: generateLinuxUA_def generateChromeVersion_eq)

lemma generateWindowsUA_fst:
  assumes "\<And>k. k < 5 \<Longrightarrow> g k = g' k"
  shows "fst (generateWindowsUA g) = fst (generateWindowsUA g')"
proof -
  have "g 0 = g' 0" "g 1 = g' 1" "g 2 = g' 2" "g 3 = g' 3" "g 4 = g' 4"
    using assms by simp_all
  then show ?thesis
    by (simp add: generateWindowsUA_def generateChromeVersion_eq randomChoice_eq rng_simps)
qed

lemma generateMacUA_fst:
  assumes "\<And>k. k < 4 \<Longrightarrow> g k = g' k"
  shows "fst (generateMacUA g) = fst (generateMacUA g')"
proof -
  have "g 0 = g' 0" "g 1 = g' 1" "g 2 = g' 2" "g 3 = g' 3"
    using assms by simp_all
  then show ?thesis
    by (simp add: generateMacUA_def generateChromeVersion_eq randomChoice_eq rng_simps)
qed

lemma generateLinuxUA_fst:
  assumes "\<And>k. k < 3 \<Longrightarrow> g k = g' k"
  shows "fst (generateLinuxUA g) = fst (generateLinuxUA g')"
proof -
  have "g 0 = g' 0" "g 1 = g' 1" "g 2 = g' 2"
    using assms by simp_all
  then show ?thesis
    by (simp add: generateLinuxUA_def generateChromeVersion_eq)
qed

lemma generateUA_snd:
  assumes "g 0 = g' 0"
  shows "\<exists>c \<le> 6. snd (generateUA p g) = rng_drop c g \<and> snd (generateUA p g') = rng_drop c g'"
proof (cases p)
  case Windows
  then show ?thesis
    by (intro exI [of _ 5]) (simp add: generateUA_def generateWindowsUA_snd)
next
  case Mac
  then show ?thesis
    by (intro exI [of _ 4]) (simp add: generateUA_def generateMacUA_snd)
next
  case Linux
  then show ?thesis
    by (intro exI [of _ 3]) (simp add: generateUA_def generateLinuxUA_snd)
next
  case Random
  show ?thesis
  proof (cases "resolvePlatform (g 0)")
    case Mac
    with Random assms show ?thesis
      by (intro exI [of _ 5]) (simp add: generateUA_def Math_random_def generateMacUA_snd rng_simps)
  next
    case Linux
    with Random assms show ?thesis
      by (intro exI [of _ 4]) (simp add: generateUA_def Math_random_def generateLinuxUA_snd rng_simps)
  qed (use Random assms in \<open>intro exI [of _ 6],
         simp add: generateUA_def Math_random_def generateWindowsUA_snd rng_simps\<close>)+
qed

lemma generateUA_fst:
  assumes "\<And>k. k < 6 \<Longrightarrow> g k = g' k"
  shows "fst (generateUA p g) = fst (generateUA p g')"
proof (cases "p = Random")
  case False
  have w: "fst (generateWindowsUA g) = fst (generateWindowsUA g')"
    by (rule generateWindowsUA_fst) (simp add: assms)
  have m: "fst (generateMacUA g) = fst (generateMacUA g')"
    by (rule generateMacUA_fst) (simp add: assms)
  have l: "fst (generateLinuxUA g) = fst (generateLinuxUA g')"
    by (rule generateLinuxUA_fst) (simp add: assms)
  from False w m l show ?thesis
    by (cases p) (simp_all add: generateUA_def)
next
  case True
  have g0: "g 0 = g' 0" using assms by simp
  have w: "fst (generateWindowsUA (rng_drop 1 g)) = fst (generateWindowsUA (rng_drop 1 g'))"
    by (rule generateWindowsUA_fst) (simp add: assms rng_drop_apply)
  have m: "fst (generateMacUA (rng_drop 1 g)) = fst (generateMacUA (rng_drop 1 g'))"
    by (rule generateMacUA_fst) (simp add: assms rng_drop_apply)
  have l: "fst (generateLinuxUA (rng_drop 1 g)) = fst (generateLinuxUA (rng_drop 1 g'))"
    by (rule generateLinuxUA_fst) (simp add: assms rng_drop_apply)
  from True g0 w m l show ?thesis
    by (cases "resolvePlatform (g' 0)") (simp_all add: generateUA_def Math_random_def)
qed

lemma randomChoice_valid:
  assumes "valid_rng g" and "arr \<noteq> []"
  shows "\<exists>x \<in> set arr. randomChoice arr g = (Some x, rng_drop 1 g)"
  using js_index_valid [OF valid_rng_at [OF assms(1), THEN conjunct1]
      valid_rng_at [OF assms(1), THEN conjunct2] assms(2), of 0]
  by (simp add: randomChoice_eq)

lemma generateSeed_fst:
  assumes "\<And>k. k < 32 \<Longrightarrow> g k = g' k"
  shows "fst (generateSeed g) = fst (generateSeed g')"
proof -
  have "map (\<lambda>k. js_int_hex \<lfloor>g k * 16\<rfloor>) [0..<32] =
        map (\<lambda>k. js_int_hex \<lfloor>g' k * 16\<rfloor>) [0..<32]"
    by (rule map_cong) (simp_all add: assms)
  then show ?thesis unfolding generateSeed_def by (simp only: fst_conv)
qed

lemma generateSeed_snd: "snd (generateSeed g) = rng_drop 32 g"
  by (simp add: generateSeed_def)

lemma getDefaultCanvasConfig_fst:
  assumes "\<And>k. k < 32 \<Longrightarrow> g k = g' k"
  shows "fst (getDefaultCanvasConfig g) = fst (getDefaultCanvasConfig g')"
  using generateSeed_fst [OF assms]
  by (simp add: getDefaultCanvasConfig_def generateCanvasNoiseSeed_def split_def)

lemma getDefaultCanvasConfig_snd: "snd (getDefaultCanvasConfig g) = rng_drop 32 g"
  by (simp add: getDefaultCanvasConfig_def generateCanvasNoiseSeed_def split_def generateSeed_snd)

lemma Apple_candidates:
  "filter (\<lambda>gpu. js_includes (vendor gpu) ''(Apple)'') GPU_CONFIGS = drop 15 GPU_CONFIGS"
  by (simp add: GPU_CONFIGS_def)

lemma other_candidates:
  "filter (\<lambda>gpu. \<not> js_includes (vendor gpu) ''(Apple)'') GPU_CONFIGS = take 15 GPU_CONFIGS"
  by (simp add: GPU_CONFIGS_def)

lemma GPU_CONFIGS_not_Nil: "GPU_CONFIGS \<noteq> []" "drop 15 GPU_CONFIGS \<noteq> []" "take 15 GPU_CONFIGS \<noteq> []"
  by (simp_all add: GPU_CONFIGS_def)

lemma generateRandomGPU_snd: "snd (generateRandomGPU_from table p g) = rng_drop 1 g"
  by (simp add: generateRandomGPU_from_def randomChoice_eq Let_def)

lemma generateRandomGPU_fst:
  "g 0 = g' 0 \<Longrightarrow> fst (generateRandomGPU_from table p g) = fst (generateRandomGPU_from table p g')"
  by (simp add: generateRandomGPU_from_def randomChoice_eq Let_def)

lemma generateRandomGPU_valid:
  assumes "valid_rng g"
  shows "\<exists>gpu \<in> set GPU_CONFIGS. generateRandomGPU p g = (Some gpu, rng_drop 1 g) \<and>
           (p = Mac \<longrightarrow> vendor gpu = ''Google Inc. (Apple)'')"
proof (cases p)
  case Mac
  obtain x where x: "x \<in> set (drop 15 GPU_CONFIGS)"
      "randomChoice (drop 15 GPU_CONFIGS) g = (Some x, rng_drop 1 g)"
    using randomChoice_valid [OF assms GPU_CONFIGS_not_Nil(2)] by blast
  from x(1) have "vendor x = ''Google Inc. (Apple)''"
    by (auto simp: GPU_CONFIGS_def)
  moreover from x(1) have "x \<in> set GPU_CONFIGS" by (rule in_set_dropD)
  ultimately show ?thesis
    using Mac x(2) GPU_CONFIGS_not_Nil(2)
    by (auto simp: generateRandomGPU_def generateRandomGPU_from_def Apple_candidates Let_def)
next
  case Random
  obtain x where x: "x \<in> set GPU_CONFIGS" "randomChoice GPU_CONFIGS g = (Some x, rng_drop 1 g)"
    using randomChoice_valid [OF assms GPU_CONFIGS_not_Nil(1)] by blast
  with Random show ?thesis
    by (auto simp: generateRandomGPU_def generateRandomGPU_from_def)
next
  case Windows
  obtain x where x: "x \<in> set (take 15 GPU_CONFIGS)"
      "randomChoice (take 15 GPU_CONFIGS) g = (Some x, rng_drop 1 g)"
    using randomChoice_valid [OF assms GPU_CONFIGS_not_Nil(3)] by blast
  from x(1) have "x \<in> set GPU_CONFIGS" by (rule in_set_takeD)
  then show ?thesis
    using Windows x(2) GPU_CONFIGS_not_Nil(3)
    by (auto simp: generateRandomGPU_def generateRandomGPU_from_def other_candidates Let_def)
next
  case Linux
  obtain x where x: "x \<in> set (take 15 GPU_CONFIGS)"
      "randomChoice (take 15 GPU_CONFIGS) g = (Some x, rng_drop 1 g)"
    using randomChoice_valid [OF assms GPU_CONFIGS_not_Nil(3)] by blast
  from x(1) have "x \<in> set GPU_CONFIGS" by (rule in_set_takeD)
  then show ?thesis
    using Linux x(2) GPU_CONFIGS_not_Nil(3)
    by (auto simp: generateRandomGPU_def generateRandomGPU_from_def other_candidates Let_def)
qed


lemma getDefaultWebGLConfig_valid:
  assumes "valid_rng g"
  shows "\<exists>gpu \<in> set GPU_CONFIGS.
           getDefaultWebGLConfig p g =
             Inr (\<lparr>webgl_enabled = True, webgl_vendor = vendor gpu, webgl_renderer = renderer gpu,
                   webgl_seed = fst (generateSeed (rng_drop 1 g))\<rparr>, rng_drop 33 g) \<and>
           (p = Mac \<longrightarrow> vendor gpu = ''Google Inc. (Apple)'')"
proof -
  obtain gpu where gpu: "gpu \<in> set GPU_CONFIGS"
      "generateRandomGPU p g = (Some gpu, rng_drop 1 g)"
      "p = Mac \<longrightarrow> vendor gpu = ''Google Inc. (Apple)''"
    using generateRandomGPU_valid [OF assms, of p] by blast
  have "getDefaultWebGLConfig p g =
      Inr (\<lparr>webgl_enabled = True, webgl_vendor = vendor gpu, webgl_renderer = renderer gpu,
            webgl_seed = fst (generateSeed (rng_drop 1 g))\<rparr>, rng_drop 33 g)"
    using gpu(2)
    by (simp add: getDefaultWebGLConfig_def generateWebGLSeed_def split_def generateSeed_snd
        rng_simps)
  with gpu(1,3) show ?thesis by blast
qed

lemma getDefaultWebGLConfig_prefix:
  assumes "\<And>k. k < 33 \<Longrightarrow> g k = g' k"
  shows "map_sum id fst (getDefaultWebGLConfig p g) = map_sum id fst (getDefaultWebGLConfig p g')"
proof -
  have g0: "g 0 = g' 0" using assms by simp
  have gpu: "fst (generateRandomGPU p g) = fst (generateRandomGPU p g')"
    unfolding generateRandomGPU_def using g0 by (rule generateRandomGPU_fst)
  have sd: "fst (generateSeed (rng_drop 1 g)) = fst (generateSeed (rng_drop 1 g'))"
    by (rule generateSeed_fst) (simp add: rng_drop_apply assms)
  have r: "generateRandomGPU p g = (fst (generateRandomGPU p g), rng_drop 1 g)"
          "generateRandomGPU p g' = (fst (generateRandomGPU p g'), rng_drop 1 g')"
    by (simp_all add: generateRandomGPU_def prod_eq_iff generateRandomGPU_snd)
  show ?thesis
    using gpu sd
    by (subst (1 2) getDefaultWebGLConfig_def, subst r(1), subst r(2))
       (simp add: generateWebGLSeed_def split_def split: option.splits)
qed

lemma getDefaultWebGLConfig_snd:
  "getDefaultWebGLConfig p g = Inr (c, g1) \<Longrightarrow> g1 = rng_drop 33 g"
proof -
  assume a: "getDefaultWebGLConfig p g = Inr (c, g1)"
  have r: "generateRandomGPU p g = (fst (generateRandomGPU p g), rng_drop 1 g)"
    by (simp add: generateRandomGPU_def prod_eq_iff generateRandomGPU_snd)
  from a show ?thesis
    by (subst (asm) getDefaultWebGLConfig_def, subst (asm) r)
       (auto simp: generateWebGLSeed_def split_def generateSeed_snd rng_simps split: option.splits)
qed

lemma tables_not_Nil:
  "SCREEN_RESOLUTIONS \<noteq> []" "LANGUAGES \<noteq> []" "CPU_CORES \<noteq> []" "MEMORY_SIZES \<noteq> []"
  "TIMEZONES \<noteq> []"
  by (simp_all add: SCREEN_RESOLUTIONS_def LANGUAGES_def CPU_CORES_def MEMORY_SIZES_def
      TIMEZONES_def)

lemma generateRandomHardware_valid:
  assumes "valid_rng g"
  shows "\<exists>h. generateRandomHardware p g = Inr (h, rng_drop (if p = Random then 7 else 6) g) \<and>
           hardwareConcurrency h \<in> Some ` set CPU_CORES \<and>
           deviceMemory h \<in> Some ` set MEMORY_SIZES \<and>
           timezone h \<in> Some ` set TIMEZONES \<and>
           pixelRatio h \<in> Some ` set [1, 5 / 4, 3 / 2, 2] \<and>
           (\<exists>l \<in> set LANGUAGES. language h = primary l \<and> languages h = lang_list l) \<and>
           (\<exists>s \<in> set SCREEN_RESOLUTIONS. screenWidth h = width s \<and> screenHeight h = height s) \<and>
           colorDepth h = 24 \<and>
           platform h \<in> {''Win32'', ''MacIntel'', ''Linux x86_64''} \<and>
           (p = Mac \<longrightarrow> platform h = ''MacIntel'') \<and>
           (p = Windows \<longrightarrow> platform h = ''Win32'') \<and>
           (p = Linux \<longrightarrow> platform h = ''Linux x86_64'')"
proof -
  have v: "\<And>k. valid_rng (rng_drop k g)" using assms by (rule valid_rng_drop)
  obtain scr where scr: "scr \<in> set SCREEN_RESOLUTIONS"
      "randomChoice SCREEN_RESOLUTIONS g = (Some scr, rng_drop 1 g)"
    using randomChoice_valid [OF assms tables_not_Nil(1)] by blast
  obtain l where l: "l \<in> set LANGUAGES"
      "randomChoice LANGUAGES (rng_drop 1 g) = (Some l, rng_drop 2 g)"
    using randomChoice_valid [OF v tables_not_Nil(2), of 1] by (auto simp: rng_simps)
  define g3 where "g3 = (if p = Random then rng_drop 3 g else rng_drop 2 g)"
  obtain rp where rp: "rp \<in> {Windows, Mac, Linux}"
      "(if p = Random then randomChoice [Windows, Mac, Linux] (rng_drop 2 g)
        else (Some p, rng_drop 2 g)) = (Some rp, g3)"
      "p \<noteq> Random \<longrightarrow> rp = p"
  proof (cases "p = Random")
    case True
    have ne: "[Windows, Mac, Linux] \<noteq> []" by simp
    obtain x where "x \<in> set [Windows, Mac, Linux]"
        "randomChoice [Windows, Mac, Linux] (rng_drop 2 g) = (Some x, rng_drop 3 g)"
      using randomChoice_valid [OF v ne, of 2] by (auto simp: rng_simps)
    with True that [of x] show ?thesis by (simp add: g3_def)
  next
    case False
    with that [of p] show ?thesis by (cases p) (simp_all add: g3_def)
  qed
  have v3: "\<And>k. valid_rng (rng_drop k g3)" using v by (simp add: g3_def rng_simps)
  have v30: "valid_rng g3" using v by (simp add: g3_def)
  obtain cores where cores: "cores \<in> set CPU_CORES"
      "randomChoice CPU_CORES g3 = (Some cores, rng_drop 1 g3)"
    using randomChoice_valid [OF v30 tables_not_Nil(3)] by blast
  obtain mem where mem: "mem \<in> set MEMORY_SIZES"
      "randomChoice MEMORY_SIZES (rng_drop 1 g3) = (Some mem, rng_drop 2 g3)"
    using randomChoice_valid [OF v3 tables_not_Nil(4), of 1] by (auto simp: rng_simps)
  obtain tz where tz: "tz \<in> set TIMEZONES"
      "randomChoice TIMEZONES (rng_drop 2 g3) = (Some tz, rng_drop 3 g3)"
    using randomChoice_valid [OF v3 tables_not_Nil(5), of 2] by (auto simp: rng_simps)
  have ne4: "[1, 5 / 4, 3 / 2, 2 :: real] \<noteq> []" by simp
  have "\<exists>x \<in> set [1, 5 / 4, 3 / 2, 2 :: real].
      randomChoice [1, 5 / 4, 3 / 2, 2 :: real] (rng_drop 3 g3) = (Some x, rng_drop 4 g3)"
    using randomChoice_valid [OF v3 ne4, of 3] by (simp only: rng_drop_drop) simp
  then obtain ratio where ratio: "ratio \<in> set [1, 5 / 4, 3 / 2, 2 :: real]"
      "randomChoice [1, 5 / 4, 3 / 2, 2 :: real] (rng_drop 3 g3) = (Some ratio, rng_drop 4 g3)"
    by blast
  have end_rng: "rng_drop 4 g3 = rng_drop (if p = Random then 7 else 6) g"
    by (simp add: g3_def rng_simps)
  let ?h = "\<lparr>hardwareConcurrency = Some cores, deviceMemory = Some mem,
              platform = navigatorPlatform (Some rp),
              language = primary l, languages = lang_list l, timezone = Some tz,
              screenWidth = width scr, screenHeight = height scr, colorDepth = 24,
              pixelRatio = Some ratio\<rparr>"
  have run: "generateRandomHardware p g = Inr (?h, rng_drop (if p = Random then 7 else 6) g)"
    unfolding generateRandomHardware_def
    by (simp only: scr(2) l(2) rp(2) cores(2) mem(2) tz(2) ratio(2) end_rng
        prod.case option.case)
  have plat: "platform ?h \<in> {''Win32'', ''MacIntel'', ''Linux x86_64''}"
    using rp(1) by (auto simp: navigatorPlatform_def)
  have plat_p: "(p = Mac \<longrightarrow> platform ?h = ''MacIntel'') \<and>
      (p = Windows \<longrightarrow> platform ?h = ''Win32'') \<and>
      (p = Linux \<longrightarrow> platform ?h = ''Linux x86_64'')"
    using rp(3) by (auto simp: navigatorPlatform_def)
  show ?thesis
    using run plat plat_p cores(1) mem(1) tz(1) ratio(1) l(1) scr(1)
    by (intro exI [of _ ?h]) auto
qed

lemma generateRandomHardware_prefix:
  assumes "\<And>k. k < 7 \<Longrightarrow> g k = g' k"
  shows "map_sum id fst (generateRandomHardware p g) =
         map_sum id fst (generateRandomHardware p g')"
  by (cases "p = Random")
     (simp_all add: generateRandomHardware_def randomChoice_eq rng_simps assms
        split: option.splits)

lemma generateRandomHardware_snd:
  "generateRandomHardware p g = Inr (h, g1) \<Longrightarrow>
     g1 = rng_drop (if p = Random then 7 else 6) g"
  by (cases "p = Random")
     (auto simp: generateRandomHardware_def randomChoice_eq rng_simps split: option.splits)

lemma map_sum_fst_cases:
  assumes "map_sum id fst x = map_sum id fst y"
  shows "(\<exists>e. x = Inl e \<and> y = Inl e) \<or> (\<exists>v r r'. x = Inr (v, r) \<and> y = Inr (v, r'))"
  using assms by (cases x; cases y) auto

lemma getDefaultHardwareConfig_valid:
  assumes "valid_rng g"
  shows "\<exists>hc. getDefaultHardwareConfig p g =
                 Inr (hc, rng_drop (if p = Random then 39 else 38) g) \<and>
           platform hc \<in> {''Win32'', ''MacIntel'', ''Linux x86_64''} \<and>
           (p = Mac \<longrightarrow> platform hc = ''MacIntel'') \<and>
           (p = Windows \<longrightarrow> platform hc = ''Win32'') \<and>
           (p = Linux \<longrightarrow> platform hc = ''Linux x86_64'')"
proof -
  obtain h where h: "generateRandomHardware p g = Inr (h, rng_drop (if p = Random then 7 else 6) g)"
      "platform h \<in> {''Win32'', ''MacIntel'', ''Linux x86_64''}"
      "p = Mac \<longrightarrow> platform h = ''MacIntel''"
      "p = Windows \<longrightarrow> platform h = ''Win32''"
      "p = Linux \<longrightarrow> platform h = ''Linux x86_64''"
    using generateRandomHardware_valid [OF assms, of p] by blast
  show ?thesis
    using h(2-5)
    by (simp add: getDefaultHardwareConfig_def h(1) generateHardwareSeed_def split_def
        generateSeed_snd rng_simps)
qed

lemma getDefaultHardwareConfig_prefix:
  assumes "\<And>k. k < 39 \<Longrightarrow> g k = g' k"
  shows "map_sum id fst (getDefaultHardwareConfig p g) =
         map_sum id fst (getDefaultHardwareConfig p g')"
proof -
  have "map_sum id fst (generateRandomHardware p g) = map_sum id fst (generateRandomHardware p g')"
    by (rule generateRandomHardware_prefix) (simp add: assms)
  then consider (err) e where "generateRandomHardware p g = Inl e"
      "generateRandomHardware p g' = Inl e"
    | (ok) h r r' where "generateRandomHardware p g = Inr (h, r)"
      "generateRandomHardware p g' = Inr (h, r')"
    using map_sum_fst_cases by blast
  then show ?thesis
  proof cases
    case err
    then show ?thesis by (simp add: getDefaultHardwareConfig_def)
  next
    case ok
    let ?c = "if p = Random then 7 else 6 :: nat"
    have r: "r = rng_drop ?c g" "r' = rng_drop ?c g'"
      using ok generateRandomHardware_snd by blast+
    have "fst (generateSeed (rng_drop ?c g)) = fst (generateSeed (rng_drop ?c g'))"
      by (rule generateSeed_fst) (simp add: rng_drop_apply assms)
    then show ?thesis
      using ok r by (simp add: getDefaultHardwareConfig_def generateHardwareSeed_def split_def)
  qed
qed

lemma getDefaultHardwareConfig_snd:
  "getDefaultHardwareConfig p g = Inr (hc, g1) \<Longrightarrow>
     g1 = rng_drop (if p = Random then 39 else 38) g"
  by (auto simp: getDefaultHardwareConfig_def generateHardwareSeed_def split_def generateSeed_snd
      rng_simps split: sum.splits dest!: generateRandomHardware_snd)



section \<open>Properties of the profiles\<close>

subsection \<open>Regenerating a fingerprint\<close>

lemma generateUA_valid:
  assumes "valid_rng g"
  shows "valid_rng (snd (generateUA p g))"
proof -
  obtain c where "snd (generateUA p g) = rng_drop c g"
    using generateUA_snd [of g g p] by blast
  then show ?thesis using assms by (simp add: valid_rng_drop)
qed

lemma spread_four:
  "spread config
     (no_updates\<lparr>upd_userAgent := Some ua, upd_canvas := Some cv, upd_webgl := Some wg,
                  upd_hardware := Some hw\<rparr>) now =
   config\<lparr>lastUsed := now, userAgent := ua, canvas := cv, webgl := wg, hardware := hw\<rparr>"
  by (cases config) (simp add: spread_def no_updates_def)

text \<open>
  Claim C9. For an existing profile \<open>regenerateFingerprint\<close> stores and returns the old
  configuration with \<open>userAgent\<close>, \<open>canvas\<close>, \<open>webgl\<close> and \<open>hardware\<close> all replaced by the
  results of fresh calls of the four generators and \<open>lastUsed\<close> set to the current time;
  every other field (id, name, platform choice, creation time, proxy) and every other
  profile is as before. For an id with no profile it returns \<open>null\<close> and writes nothing.
\<close>

theorem regenerateFingerprint_replaces_all_four:
  assumes "valid_rng g"
  shows "(dir profileId = None \<longrightarrow>
            regenerateFingerprint dir profileId now g = Inr (None, dir, g)) \<and>
         (\<forall>config. dir profileId = Some config \<longrightarrow>
            (\<exists>ua cv wg hw g1 g2 g3 g4.
               generateUA (profile_platform config) g = (ua, g1) \<and>
               getDefaultCanvasConfig g1 = (cv, g2) \<and>
               getDefaultWebGLConfig Random g2 = Inr (wg, g3) \<and>
               getDefaultHardwareConfig Random g3 = Inr (hw, g4) \<and>
               regenerateFingerprint dir profileId now g =
                 Inr (Some (config\<lparr>lastUsed := now, userAgent := ua, canvas := cv, webgl := wg,
                                    hardware := hw\<rparr>),
                      dir(profileId \<mapsto> config\<lparr>lastUsed := now, userAgent := ua, canvas := cv,
                                               webgl := wg, hardware := hw\<rparr>),
                      g4)))"
proof (intro conjI allI impI)
  assume "dir profileId = None"
  then show "regenerateFingerprint dir profileId now g = Inr (None, dir, g)"
    by (simp add: regenerateFingerprint_def get_def)
next
  fix config
  assume cfg: "dir profileId = Some config"
  obtain ua g1 where ua: "generateUA (profile_platform config) g = (ua, g1)"
    by (cases "generateUA (profile_platform config) g")
  have v1: "valid_rng g1"
    using generateUA_valid [OF assms, of "profile_platform config"] ua by simp
  obtain cv g2 where cv: "getDefaultCanvasConfig g1 = (cv, g2)"
    by (cases "getDefaultCanvasConfig g1")
  have v2: "valid_rng g2"
    using getDefaultCanvasConfig_snd [of g1] cv v1 by (simp add: valid_rng_drop)
  obtain wg g3 where wg: "getDefaultWebGLConfig Random g2 = Inr (wg, g3)" "g3 = rng_drop 33 g2"
    using getDefaultWebGLConfig_valid [OF v2, of Random] by blast
  have v3: "valid_rng g3" using wg(2) v2 by (simp add: valid_rng_drop)
  obtain hw g4 where hw: "getDefaultHardwareConfig Random g3 = Inr (hw, g4)"
    using getDefaultHardwareConfig_valid [OF v3, of Random] by blast
  have "regenerateFingerprint dir profileId now g =
      Inr (Some (config\<lparr>lastUsed := now, userAgent := ua, canvas := cv, webgl := wg,
                         hardware := hw\<rparr>),
           dir(profileId \<mapsto> config\<lparr>lastUsed := now, userAgent := ua, canvas := cv,
                                    webgl := wg, hardware := hw\<rparr>),
           g4)"
    by (simp add: regenerateFingerprint_def get_def cfg ua cv wg(1) hw update_def spread_four
        Let_def)
  with ua cv wg(1) hw
  show "\<exists>ua cv wg hw g1 g2 g3 g4.
          generateUA (profile_platform config) g = (ua, g1) \<and>
          getDefaultCanvasConfig g1 = (cv, g2) \<and>
          getDefaultWebGLConfig Random g2 = Inr (wg, g3) \<and>
          getDefaultHardwareConfig Random g3 = Inr (hw, g4) \<and>
          regenerateFingerprint dir profileId now g =
            Inr (Some (config\<lparr>lastUsed := now, userAgent := ua, canvas := cv, webgl := wg,
                               hardware := hw\<rparr>),
                 dir(profileId \<mapsto> config\<lparr>lastUsed := now, userAgent := ua, canvas := cv,
                                          webgl := wg, hardware := hw\<rparr>),
                 g4)"
    by blast
qed

theorem regenerateFingerprint_replaces_all_four_witness:
  "valid_rng (\<lambda>n. 0) \<and>
   regenerateFingerprint Map.empty ''id1'' ''t3'' (\<lambda>n. 0) = Inr (None, Map.empty, \<lambda>n. 0) \<and>
   (\<exists>r d g'.
      regenerateFingerprint
        [''id1'' \<mapsto>
           \<lparr>profile_id = ''id1'', name = ''account1'', createdAt = ''t1'', lastUsed = ''t2'',
            userAgent = ''old'', profile_platform = Mac,
            canvas = \<lparr>enabled = True, noise = 1 / 10, seed = ''s1''\<rparr>,
            webgl = \<lparr>webgl_enabled = True, webgl_vendor = ''v'', webgl_renderer = ''r'',
                     webgl_seed = ''s2''\<rparr>,
            hardware = \<lparr>hardwareConcurrency = Some 4, deviceMemory = Some 8,
                        platform = ''MacIntel'', language = ''en-US'', languages = [''en-US''],
                        timezone = Some ''Europe/Paris'', screenWidth = 1920,
                        screenHeight = 1080, colorDepth = 24, pixelRatio = Some 1,
                        hardware_enabled = True, hardware_seed = ''s3''\<rparr>,
            proxy = None\<rparr>]
        ''id1'' ''t3'' (\<lambda>n. 0) = Inr (Some r, d, g') \<and>
      d ''id1'' = Some r \<and> profile_id r = ''id1'' \<and> name r = ''account1'' \<and>
      createdAt r = ''t1'' \<and> lastUsed r = ''t3'' \<and> profile_platform r = Mac \<and>
      proxy r = None \<and> userAgent r = fst (generateUA Mac (\<lambda>n. 0)))"
proof -
  let ?P = "\<lparr>profile_id = ''id1'', name = ''account1'', createdAt = ''t1'', lastUsed = ''t2'',
            userAgent = ''old'', profile_platform = Mac,
            canvas = \<lparr>enabled = True, noise = 1 / 10, seed = ''s1''\<rparr>,
            webgl = \<lparr>webgl_enabled = True, webgl_vendor = ''v'', webgl_renderer = ''r'',
                     webgl_seed = ''s2''\<rparr>,
            hardware = \<lparr>hardwareConcurrency = Some 4, deviceMemory = Some 8,
                        platform = ''MacIntel'', language = ''en-US'', languages = [''en-US''],
                        timezone = Some ''Europe/Paris'', screenWidth = 1920,
                        screenHeight = 1080, colorDepth = 24, pixelRatio = Some 1,
                        hardware_enabled = True, hardware_seed = ''s3''\<rparr>,
            proxy = None\<rparr>"
  have v: "valid_rng (\<lambda>n. 0)" by (simp add: valid_rng_def)
  have a: "regenerateFingerprint Map.empty ''id1'' ''t3'' (\<lambda>n. 0) =
      Inr (None, Map.empty, \<lambda>n. 0)"
    using regenerateFingerprint_replaces_all_four [OF v, of Map.empty "''id1''" "''t3''"]
    by simp
  have "[''id1'' \<mapsto> ?P] ''id1'' = Some ?P" by simp
  with regenerateFingerprint_replaces_all_four [OF v, of "[''id1'' \<mapsto> ?P]" "''id1''" "''t3''"]
  obtain ua cv wg hw g1 g4 where
    u: "generateUA (profile_platform ?P) (\<lambda>n. 0) = (ua, g1)" and
    r: "regenerateFingerprint [''id1'' \<mapsto> ?P] ''id1'' ''t3'' (\<lambda>n. 0) =
          Inr (Some (?P\<lparr>lastUsed := ''t3'', userAgent := ua, canvas := cv, webgl := wg,
                         hardware := hw\<rparr>),
               [''id1'' \<mapsto> ?P](''id1'' \<mapsto> ?P\<lparr>lastUsed := ''t3'', userAgent := ua,
                   canvas := cv, webgl := wg, hardware := hw\<rparr>),
               g4)"
    by blast
  from u have ua: "ua = fst (generateUA Mac (\<lambda>n. 0))" by simp
  have b: "\<exists>r d g'.
      regenerateFingerprint [''id1'' \<mapsto> ?P] ''id1'' ''t3'' (\<lambda>n. 0) = Inr (Some r, d, g') \<and>
      d ''id1'' = Some r \<and> profile_id r = ''id1'' \<and> name r = ''account1'' \<and>
      createdAt r = ''t1'' \<and> lastUsed r = ''t3'' \<and> profile_platform r = Mac \<and>
      proxy r = None \<and> userAgent r = fst (generateUA Mac (\<lambda>n. 0))"
    apply (rule exI [of _ "?P\<lparr>lastUsed := ''t3'', userAgent := ua, canvas := cv, webgl := wg,
                         hardware := hw\<rparr>"])
    apply (rule exI [of _ "[''id1'' \<mapsto> ?P](''id1'' \<mapsto> ?P\<lparr>lastUsed := ''t3'', userAgent := ua,
                   canvas := cv, webgl := wg, hardware := hw\<rparr>)"])
    apply (rule exI [of _ g4])
    using r ua by simp
  from v a b show ?thesis by (intro conjI)
qed

subsection \<open>Creating a profile\<close>

lemma create_valid:
  assumes "valid_rng g"
  shows "\<exists>config g'. create dir nm p px uid t1 t2 g = Inr (config, dir(uid \<mapsto> config), g') \<and>
           userAgent config = fst (generateUA p g) \<and> profile_platform config = p"
proof -
  obtain ua g1 where ua: "generateUA p g = (ua, g1)"
    by (cases "generateUA p g")
  have v1: "valid_rng g1"
    using generateUA_valid [OF assms, of p] ua by simp
  obtain cv g2 where cv: "getDefaultCanvasConfig g1 = (cv, g2)"
    by (cases "getDefaultCanvasConfig g1")
  have v2: "valid_rng g2"
    using getDefaultCanvasConfig_snd [of g1] cv v1 by (simp add: valid_rng_drop)
  obtain wg g3 where wg: "getDefaultWebGLConfig Random g2 = Inr (wg, g3)" "g3 = rng_drop 33 g2"
    using getDefaultWebGLConfig_valid [OF v2, of Random] by blast
  have v3: "valid_rng g3" using wg(2) v2 by (simp add: valid_rng_drop)
  obtain hw g4 where hw: "getDefaultHardwareConfig Random g3 = Inr (hw, g4)"
    using getDefaultHardwareConfig_valid [OF v3, of Random] by blast
  show ?thesis
    by (simp add: create_def ua cv wg(1) hw Let_def)
qed

lemma rng_drop_const: "rng_drop k (\<lambda>n. c) = (\<lambda>n. c)"
  by (simp add: rng_drop_def)

lemmas ua_eval = generateUA_def generateMacUA_def generateChromeVersion_eq randomChoice_eq
  js_index_def js_int_str_def js_str_def dec_of_nat.simps WEBKIT_BASE_def
  PLATFORMS_mac_versions_def rng_drop_const

lemma generateUA_Mac_zero:
  "generateUA Mac (\<lambda>n. 0) =
     (''Mozilla/5.0 (Macintosh; Intel Mac OS X 10_15_7) AppleWebKit/537.36 (KHTML, like Gecko) Chrome/110.0.5000.0 Safari/537.36'',
      \<lambda>n. 0)"
  by (simp add: ua_eval)

lemma generateUA_Mac_half:
  "generateUA Mac (\<lambda>n. 1 / 2) =
     (''Mozilla/5.0 (Macintosh; Intel Mac OS X 12_0) AppleWebKit/537.36 (KHTML, like Gecko) Chrome/115.0.5500.100 Safari/537.36'',
      \<lambda>n. 1 / 2)"
  by (simp add: ua_eval)

text \<open>
  Claim C1 (as amended). Generation takes no seed. The attribute sets that \<open>create\<close>
  returns (\<open>userAgent\<close>, \<open>canvas\<close>, \<open>webgl\<close>, \<open>hardware\<close>) are determined by the
  platform choice and the results of the next 110 calls of \<open>Math.random\<close>: two calls
  with the same platform choice whose \<open>Math.random\<close> results agree on these calls
  return the same attribute sets, or fail alike, whatever the directory, name, proxy,
  id and clock are.
\<close>

theorem fingerprint_determined_by_platform_and_draws:
  assumes "\<And>k. k < 110 \<Longrightarrow> g k = g' k"
  shows "map_sum id (\<lambda>r. fingerprint (fst r)) (create dir nm p px uid t1 t2 g) =
         map_sum id (\<lambda>r. fingerprint (fst r)) (create dir' nm' p px' uid' t1' t2' g')"
proof -
  have g0: "g 0 = g' 0" using assms by simp
  obtain c where c: "c \<le> 6" "snd (generateUA p g) = rng_drop c g"
      "snd (generateUA p g') = rng_drop c g'"
    using generateUA_snd [of g g' p] g0 by blast
  have ua: "fst (generateUA p g) = fst (generateUA p g')"
    by (rule generateUA_fst) (simp add: assms)
  define U where "U = fst (generateUA p g)"
  have U: "generateUA p g = (U, rng_drop c g)" "generateUA p g' = (U, rng_drop c g')"
    using c ua by (simp_all add: U_def prod_eq_iff)
  have cvf: "fst (getDefaultCanvasConfig (rng_drop c g)) =
             fst (getDefaultCanvasConfig (rng_drop c g'))"
    by (rule getDefaultCanvasConfig_fst) (use c(1) in \<open>simp add: rng_drop_apply assms\<close>)
  define CV where "CV = fst (getDefaultCanvasConfig (rng_drop c g))"
  define h where "h = rng_drop (32 + c) g"
  define h' where "h' = rng_drop (32 + c) g'"
  have CV: "getDefaultCanvasConfig (rng_drop c g) = (CV, h)"
      "getDefaultCanvasConfig (rng_drop c g') = (CV, h')"
    using cvf
    by (simp_all add: CV_def h_def h'_def prod_eq_iff getDefaultCanvasConfig_snd rng_drop_drop)
  have hh: "\<And>k. k < 72 \<Longrightarrow> h k = h' k"
    using c(1) by (simp add: h_def h'_def rng_drop_apply assms)
  have "map_sum id fst (getDefaultWebGLConfig Random h) =
        map_sum id fst (getDefaultWebGLConfig Random h')"
    by (rule getDefaultWebGLConfig_prefix) (simp add: hh)
  then consider (err) e where "getDefaultWebGLConfig Random h = Inl e"
      "getDefaultWebGLConfig Random h' = Inl e"
    | (ok) wg r r' where "getDefaultWebGLConfig Random h = Inr (wg, r)"
      "getDefaultWebGLConfig Random h' = Inr (wg, r')"
    using map_sum_fst_cases by blast
  then show ?thesis
  proof cases
    case err
    then show ?thesis by (simp add: create_def U CV)
  next
    case ok
    have r: "r = rng_drop 33 h" "r' = rng_drop 33 h'"
      using ok getDefaultWebGLConfig_snd by blast+
    have "map_sum id fst (getDefaultHardwareConfig Random r) =
          map_sum id fst (getDefaultHardwareConfig Random r')"
      by (rule getDefaultHardwareConfig_prefix) (simp add: r rng_drop_apply hh)
    then consider (err2) e where "getDefaultHardwareConfig Random r = Inl e"
        "getDefaultHardwareConfig Random r' = Inl e"
      | (ok2) hw q q' where "getDefaultHardwareConfig Random r = Inr (hw, q)"
        "getDefaultHardwareConfig Random r' = Inr (hw, q')"
      using map_sum_fst_cases by blast
    then show ?thesis
    proof cases
      case err2
      then show ?thesis by (simp add: create_def U CV ok)
    next
      case ok2
      then show ?thesis by (simp add: create_def U CV ok fingerprint_def Let_def)
    qed
  qed
qed

theorem fingerprint_determined_by_platform_and_draws_witness:
  "map_sum id (\<lambda>r. fingerprint (fst r))
     (create Map.empty ''account1'' Mac None ''id1'' ''t1'' ''t2'' (\<lambda>n. 0)) =
   map_sum id (\<lambda>r. fingerprint (fst r))
     (create Map.empty ''account2'' Mac None ''id2'' ''t3'' ''t4''
        (\<lambda>n. if n < 110 then 0 else 1 / 2))"
  using fingerprint_determined_by_platform_and_draws
    [of "\<lambda>n. 0" "\<lambda>n. if n < 110 then 0 else 1 / 2"]
  by simp

text \<open>
  Claim C1 as stated fails: the same call of \<open>create\<close>, with the same platform choice
  and every other argument equal, returns different attribute sets for two states of
  \<open>Math.random\<close>.
\<close>

theorem create_same_arguments_different_fingerprint:
  "valid_rng (\<lambda>n. 0) \<and> valid_rng (\<lambda>n. 1 / 2) \<and>
   map_sum id (\<lambda>r. fingerprint (fst r))
     (create Map.empty ''account1'' Mac None ''id1'' ''t1'' ''t2'' (\<lambda>n. 0)) \<noteq>
   map_sum id (\<lambda>r. fingerprint (fst r))
     (create Map.empty ''account1'' Mac None ''id1'' ''t1'' ''t2'' (\<lambda>n. 1 / 2))"
proof -
  have v0: "valid_rng (\<lambda>n. 0)" and v1: "valid_rng (\<lambda>n. 1 / 2)"
    by (simp_all add: valid_rng_def)
  obtain c0 r0 where c0:
      "create Map.empty ''account1'' Mac None ''id1'' ''t1'' ''t2'' (\<lambda>n. 0) =
         Inr (c0, [''id1'' \<mapsto> c0], r0)"
      "userAgent c0 = fst (generateUA Mac (\<lambda>n. 0))"
    using create_valid [OF v0, of Map.empty "''account1''" Mac None "''id1''" "''t1''" "''t2''"]
    by blast
  obtain c1 r1 where c1:
      "create Map.empty ''account1'' Mac None ''id1'' ''t1'' ''t2'' (\<lambda>n. 1 / 2) =
         Inr (c1, [''id1'' \<mapsto> c1], r1)"
      "userAgent c1 = fst (generateUA Mac (\<lambda>n. 1 / 2))"
    using create_valid [OF v1, of Map.empty "''account1''" Mac None "''id1''" "''t1''" "''t2''"]
    by blast
  have "userAgent c0 \<noteq> userAgent c1"
    by (simp add: c0(2) c1(2) generateUA_Mac_zero generateUA_Mac_half)
  then have "fingerprint c0 \<noteq> fingerprint c1"
    by (auto simp: fingerprint_def)
  with v0 v1 show ?thesis by (simp add: c0(1) c1(1))
qed

lemma getDefaultWebGLConfig_zero:
  "getDefaultWebGLConfig Random (\<lambda>n. 0) =
     Inr (\<lparr>webgl_enabled = True, webgl_vendor = ''Google Inc. (NVIDIA)'',
           webgl_renderer = ''ANGLE (NVIDIA, NVIDIA GeForce GTX 1650 Direct3D11 vs_5_0 ps_5_0, D3D11)'',
           webgl_seed = fst (generateSeed (\<lambda>n. 0))\<rparr>, \<lambda>n. 0)"
  by (simp add: getDefaultWebGLConfig_def generateRandomGPU_def generateRandomGPU_from_def
      randomChoice_eq js_index_def GPU_CONFIGS_def generateWebGLSeed_def split_def
      generateSeed_snd rng_drop_const)

lemma getDefaultHardwareConfig_zero:
  "\<exists>hc. getDefaultHardwareConfig Random (\<lambda>n. 0) = Inr (hc, \<lambda>n. 0) \<and> platform hc = ''Win32''"
  by (simp add: getDefaultHardwareConfig_def generateRandomHardware_def randomChoice_eq
      js_index_def SCREEN_RESOLUTIONS_def LANGUAGES_def CPU_CORES_def MEMORY_SIZES_def
      TIMEZONES_def navigatorPlatform_def generateHardwareSeed_def split_def generateSeed_snd
      rng_drop_const)

text \<open>
  Claim C2 fails on \<open>create\<close>: with the platform choice mac and \<open>Math.random\<close>
  returning 0 throughout, the user agent is a Macintosh one while the hardware platform
  is \<open>Win32\<close> and the WebGL vendor is the NVIDIA one. \<open>create\<close> passes the platform
  choice to \<open>generateUA\<close> only; the WebGL and hardware generators run with their
  default \<open>random\<close>.
\<close>

theorem create_mac_reports_windows_hardware:
  "\<exists>config dir' g'.
     create Map.empty ''account1'' Mac None ''id1'' ''t1'' ''t2'' (\<lambda>n. 0) = Inr (config, dir', g') \<and>
     profile_platform config = Mac \<and>
     userAgent config =
       ''Mozilla/5.0 (Macintosh; Intel Mac OS X 10_15_7) AppleWebKit/537.36 (KHTML, like Gecko) Chrome/110.0.5000.0 Safari/537.36'' \<and>
     platform (hardware config) = ''Win32'' \<and>
     webgl_vendor (webgl config) = ''Google Inc. (NVIDIA)''"
proof -
  obtain hc where hc: "getDefaultHardwareConfig Random (\<lambda>n. 0) = Inr (hc, \<lambda>n. 0)"
      "platform hc = ''Win32''"
    using getDefaultHardwareConfig_zero by blast
  show ?thesis
    by (simp add: create_def generateUA_Mac_zero getDefaultCanvasConfig_def
        generateCanvasNoiseSeed_def split_def generateSeed_snd rng_drop_const
        getDefaultWebGLConfig_zero hc Let_def)
qed

section \<open>The user agent and its client hints\<close>

lemma digit_nth: "k < 10 \<Longrightarrow> is_digit (''0123456789'' ! k)"
  unfolding is_digit_def by (rule nth_mem) simp

lemma dec_of_nat_digits: "dec_of_nat n \<noteq> [] \<and> (\<forall>c \<in> set (dec_of_nat n). is_digit c)"
proof (induction n rule: dec_of_nat.induct)
  case (1 n)
  show ?case
  proof (cases "n < 10")
    case True
    then show ?thesis
      by (subst (1 2) dec_of_nat.simps) (simp add: digit_nth)
  next
    case False
    have "is_digit (''0123456789'' ! (n mod 10))"
      by (rule digit_nth) simp
    with False "1.IH" show ?thesis
      by (subst (1 2) dec_of_nat.simps) simp
  qed
qed

lemma js_int_str_digits:
  "0 \<le> n \<Longrightarrow> js_int_str n \<noteq> [] \<and> (\<forall>c \<in> set (js_int_str n). is_digit c)"
  using dec_of_nat_digits [of "nat n"] by (simp add: js_int_str_def)

lemma randomInt_digits:
  assumes "valid_rng g" and "0 \<le> lo" and "0 \<le> k"
  shows "js_int_str (\<lfloor>g i * of_int k\<rfloor> + lo) \<noteq> [] \<and>
         (\<forall>c \<in> set (js_int_str (\<lfloor>g i * of_int k\<rfloor> + lo)). is_digit c)"
proof -
  have "0 \<le> g i" using assms(1) by (simp add: valid_rng_def)
  then have "0 \<le> g i * of_int k" using assms(3) by simp
  then have "0 \<le> \<lfloor>g i * of_int k\<rfloor>" by simp
  then have "0 \<le> \<lfloor>g i * of_int k\<rfloor> + lo" using assms(2) by simp
  then show ?thesis by (rule js_int_str_digits)
qed

lemma not_digit_simps:
  "\<not> is_digit CHR ''.''" "\<not> is_digit CHR '' ''" "\<not> is_digit CHR ''W''" "\<not> is_digit CHR ''M''"
  by (simp_all add: is_digit_def)

lemma takeWhile_digits:
  assumes "\<forall>c \<in> set d. is_digit c" and "\<not> is_digit x"
  shows "takeWhile is_digit (d @ x # r) = d" and "dropWhile is_digit (d @ x # r) = x # r"
  using assms by (simp_all add: takeWhile_append2 dropWhile_append2)

lemma digits_dot_append:
  assumes "d \<noteq> []" and "\<forall>c \<in> set d. is_digit c"
  shows "digits_dot (d @ CHR ''.'' # r) = Some (d, r)"
  using assms by (simp add: digits_dot_def takeWhile_digits not_digit_simps)

lemma version_at_generated:
  assumes "d1 \<noteq> []" "\<forall>c \<in> set d1. is_digit c" "d2 \<noteq> []" "\<forall>c \<in> set d2. is_digit c"
    "d3 \<noteq> []" "\<forall>c \<in> set d3. is_digit c" "d4 \<noteq> []" "\<forall>c \<in> set d4. is_digit c"
    "\<not> is_digit x"
  shows "version_at (d1 @ CHR ''.'' # d2 @ CHR ''.'' # d3 @ CHR ''.'' # d4 @ x # r) =
           Some (d1 @ ''.'' @ d2 @ ''.'' @ d3 @ ''.'' @ d4)"
  using assms by (simp add: version_at_def digits_dot_append takeWhile_digits)

lemma chromeMatch_skip: "CHR ''C'' \<notin> set pre \<Longrightarrow> chromeMatch (pre @ s) = chromeMatch s"
  by (induction pre) auto

lemma chromeMatch_here:
  "version_at v = Some m \<Longrightarrow> chromeMatch (''Chrome/'' @ v) = Some m"
  by simp

lemma platformMatch_skip: "CHR ''('' \<notin> set pre \<Longrightarrow> platformMatch (pre @ s) = platformMatch s"
  by (induction pre) auto

lemma platformMatch_here:
  assumes "os \<noteq> []" and "CHR '')'' \<notin> set os"
  shows "platformMatch (CHR ''('' # os @ CHR '')'' # r) = Some os"
proof -
  have all: "\<forall>x \<in> set os. x \<noteq> CHR '')''" using assms(2) by auto
  have tw: "takeWhile (\<lambda>x. x \<noteq> CHR '')'') (os @ CHR '')'' # r) = os"
    using all by (simp add: takeWhile_append2)
  have dw: "dropWhile (\<lambda>x. x \<noteq> CHR '')'') (os @ CHR '')'' # r) = CHR '')'' # r"
    using all by (simp add: dropWhile_append2)
  show ?thesis using assms(1) by (simp add: tw dw)
qed

lemma js_includes_skip:
  "a \<notin> set d \<Longrightarrow> js_includes (d @ r) (a # sub) = js_includes r (a # sub)"
  by (induction d) auto

lemma js_includes_digits:
  assumes "\<forall>c \<in> set d. is_digit c" and "\<not> is_digit a"
  shows "js_includes (d @ r) (a # sub) = js_includes r (a # sub)"
  using assms by (intro js_includes_skip) auto

lemma major_before_dot:
  assumes "\<forall>c \<in> set d. is_digit c"
  shows "takeWhile (\<lambda>x. x \<noteq> CHR ''.'') (d @ CHR ''.'' # r) = d"
proof -
  have "\<forall>c \<in> set d. c \<noteq> CHR ''.''" using assms not_digit_simps(1) by auto
  then show ?thesis by (simp add: takeWhile_append2)
qed

text \<open>The hints of a user agent of the generated shape, for an operating system part
  \<open>os\<close> without parentheses and without a capital C.\<close>

lemma parseUA_generated:
  assumes d: "d1 \<noteq> []" "\<forall>c \<in> set d1. is_digit c" "d2 \<noteq> []" "\<forall>c \<in> set d2. is_digit c"
    "d3 \<noteq> []" "\<forall>c \<in> set d3. is_digit c" "d4 \<noteq> []" "\<forall>c \<in> set d4. is_digit c"
    and os: "os \<noteq> []" "CHR '')'' \<notin> set os" "CHR ''('' \<notin> set os" "CHR ''C'' \<notin> set os"
  shows "chromeMatch (''Mozilla/5.0 ('' @ os @ '') AppleWebKit/537.36 (KHTML, like Gecko) Chrome/'' @
            d1 @ ''.'' @ d2 @ ''.'' @ d3 @ ''.'' @ d4 @ '' Safari/537.36'') =
           Some (d1 @ ''.'' @ d2 @ ''.'' @ d3 @ ''.'' @ d4)"
    and "platformMatch (''Mozilla/5.0 ('' @ os @ '') AppleWebKit/537.36 (KHTML, like Gecko) Chrome/'' @
            d1 @ ''.'' @ d2 @ ''.'' @ d3 @ ''.'' @ d4 @ '' Safari/537.36'') = Some os"
proof -
  let ?v = "d1 @ ''.'' @ d2 @ ''.'' @ d3 @ ''.'' @ d4 @ '' Safari/537.36''"
  have v: "version_at ?v = Some (d1 @ ''.'' @ d2 @ ''.'' @ d3 @ ''.'' @ d4)"
    using version_at_generated [OF d not_digit_simps(2), of "''Safari/537.36''"] by simp
  have pre: "CHR ''C'' \<notin> set (''Mozilla/5.0 ('' @ os @ '') AppleWebKit/537.36 (KHTML, like Gecko) '')"
    using os(4) by simp
  have "chromeMatch ((''Mozilla/5.0 ('' @ os @ '') AppleWebKit/537.36 (KHTML, like Gecko) '') @
          (''Chrome/'' @ ?v)) = chromeMatch (''Chrome/'' @ ?v)"
    using pre by (rule chromeMatch_skip)
  also have "\<dots> = Some (d1 @ ''.'' @ d2 @ ''.'' @ d3 @ ''.'' @ d4)"
    using v by (rule chromeMatch_here)
  finally show "chromeMatch (''Mozilla/5.0 ('' @ os @ '') AppleWebKit/537.36 (KHTML, like Gecko) Chrome/'' @
            d1 @ ''.'' @ d2 @ ''.'' @ d3 @ ''.'' @ d4 @ '' Safari/537.36'') =
           Some (d1 @ ''.'' @ d2 @ ''.'' @ d3 @ ''.'' @ d4)"
    by simp
  have "platformMatch (''Mozilla/5.0 '' @
          (CHR ''('' # os @ CHR '')'' # ('' AppleWebKit/537.36 (KHTML, like Gecko) Chrome/'' @ ?v))) =
        platformMatch (CHR ''('' # os @ CHR '')'' # ('' AppleWebKit/537.36 (KHTML, like Gecko) Chrome/'' @ ?v))"
    by (rule platformMatch_skip) simp
  also have "\<dots> = Some os"
    using os(1,2) by (rule platformMatch_here)
  finally show "platformMatch (''Mozilla/5.0 ('' @ os @ '') AppleWebKit/537.36 (KHTML, like Gecko) Chrome/'' @
            d1 @ ''.'' @ d2 @ ''.'' @ d3 @ ''.'' @ d4 @ '' Safari/537.36'') = Some os"
    by simp
qed

lemma digits_no_letter:
  assumes "\<forall>c \<in> set d. is_digit c"
  shows "CHR ''W'' \<notin> set d" and "CHR ''M'' \<notin> set d"
  using assms not_digit_simps by auto

lemma hints_generated:
  fixes os d1 d3 d4 :: string
  defines "ua \<equiv> ''Mozilla/5.0 ('' @ os @ '') AppleWebKit/537.36 (KHTML, like Gecko) Chrome/'' @
            d1 @ ''.'' @ ''0'' @ ''.'' @ d3 @ ''.'' @ d4 @ '' Safari/537.36''"
  assumes d: "d1 \<noteq> []" "\<forall>c \<in> set d1. is_digit c" "d3 \<noteq> []" "\<forall>c \<in> set d3. is_digit c"
      "d4 \<noteq> []" "\<forall>c \<in> set d4. is_digit c"
    and os: "os \<noteq> []" "CHR '')'' \<notin> set os" "CHR ''('' \<notin> set os" "CHR ''C'' \<notin> set os"
  shows "generateClientHints ua =
     [(''sec-ch-ua'',
         dq @ ''Chromium'' @ dq @ '';v='' @ dq @ d1 @ dq @ '', '' @
         dq @ ''Google Chrome'' @ dq @ '';v='' @ dq @ d1 @ dq @ '', '' @
         dq @ ''Not=A?Brand'' @ dq @ '';v='' @ dq @ ''8'' @ dq),
      (''sec-ch-ua-mobile'', ''?0''),
      (''sec-ch-ua-platform'',
         if js_includes ua ''Windows'' then dq @ ''Windows'' @ dq
         else if js_includes ua ''Mac'' then dq @ ''macOS'' @ dq
         else dq @ ''Linux'' @ dq)]"
proof -
  have z: "''0'' \<noteq> []" "\<forall>c \<in> set ''0''. is_digit c"
    by (simp_all add: is_digit_def)
  note m = parseUA_generated [OF d(1,2) z d(3-6) os]
  have major: "takeWhile (\<lambda>x. x \<noteq> CHR ''.'') (d1 @ ''.'' @ ''0'' @ ''.'' @ d3 @ ''.'' @ d4) = d1"
    using major_before_dot [OF d(2), of "''0'' @ ''.'' @ d3 @ ''.'' @ d4"] by simp
  show ?thesis
    unfolding generateClientHints_def parseUA_def ua_def
    by (simp only: m major Let_def prod.case option.case UAComponents.simps)
qed

lemma windows_includes:
  "js_includes (''Mozilla/5.0 (Windows NT '' @ x) ''Windows''"
  by simp

lemma mac_includes:
  assumes "CHR ''W'' \<notin> set ver" "CHR ''W'' \<notin> set d1" "CHR ''W'' \<notin> set d3" "CHR ''W'' \<notin> set d4"
  shows "\<not> js_includes (''Mozilla/5.0 ('' @ (''Macintosh; Intel Mac OS X '' @ ver) @
            '') AppleWebKit/537.36 (KHTML, like Gecko) Chrome/'' @
            d1 @ ''.'' @ ''0'' @ ''.'' @ d3 @ ''.'' @ d4 @ '' Safari/537.36'') ''Windows''"
    and "js_includes (''Mozilla/5.0 ('' @ (''Macintosh; Intel Mac OS X '' @ ver) @ y) ''Mac''"
  using assms by (simp_all add: js_includes_skip)

lemma linux_includes:
  assumes "CHR ''W'' \<notin> set d1" "CHR ''W'' \<notin> set d3" "CHR ''W'' \<notin> set d4"
    "CHR ''M'' \<notin> set d1" "CHR ''M'' \<notin> set d3" "CHR ''M'' \<notin> set d4"
  shows "\<not> js_includes (''Mozilla/5.0 ('' @ ''X11; Linux x86_64'' @
            '') AppleWebKit/537.36 (KHTML, like Gecko) Chrome/'' @
            d1 @ ''.'' @ ''0'' @ ''.'' @ d3 @ ''.'' @ d4 @ '' Safari/537.36'') ''Windows''"
    and "\<not> js_includes (''Mozilla/5.0 ('' @ ''X11; Linux x86_64'' @
            '') AppleWebKit/537.36 (KHTML, like Gecko) Chrome/'' @
            d1 @ ''.'' @ ''0'' @ ''.'' @ d3 @ ''.'' @ d4 @ '' Safari/537.36'') ''Mac''"
  using assms by (simp_all add: js_includes_skip)

lemma js_int_str_zero: "js_int_str 0 = ''0''"
  by (simp add: js_int_str_def dec_of_nat.simps)

lemma chrome_digits:
  assumes "valid_rng g"
  shows "js_int_str (\<lfloor>g 0 * 11\<rfloor> + 110) \<noteq> []"
    "\<forall>c \<in> set (js_int_str (\<lfloor>g 0 * 11\<rfloor> + 110)). is_digit c"
    "js_int_str (\<lfloor>g 1 * 1001\<rfloor> + 5000) \<noteq> []"
    "\<forall>c \<in> set (js_int_str (\<lfloor>g 1 * 1001\<rfloor> + 5000)). is_digit c"
    "js_int_str \<lfloor>g 2 * 201\<rfloor> \<noteq> []"
    "\<forall>c \<in> set (js_int_str \<lfloor>g 2 * 201\<rfloor>). is_digit c"
  using randomInt_digits [OF assms, of 110 11 0] randomInt_digits [OF assms, of 5000 1001 1]
    randomInt_digits [OF assms, of 0 201 2]
  by simp_all

lemma generateWindowsUA_shape:
  assumes "valid_rng g"
  shows "\<exists>nt \<in> set PLATFORMS_windows_versions.
           fst (generateWindowsUA g) =
             ''Mozilla/5.0 ('' @ (''Windows NT '' @ nt @ ''; Win64; x64'') @
             '') AppleWebKit/537.36 (KHTML, like Gecko) Chrome/'' @
             js_int_str (\<lfloor>g 0 * 11\<rfloor> + 110) @ ''.'' @ ''0'' @ ''.'' @
             js_int_str (\<lfloor>g 1 * 1001\<rfloor> + 5000) @ ''.'' @ js_int_str \<lfloor>g 2 * 201\<rfloor> @
             '' Safari/537.36''"
proof -
  have v: "\<And>k. valid_rng (rng_drop k g)" using assms by (rule valid_rng_drop)
  have ne: "PLATFORMS_windows_versions \<noteq> []" "PLATFORMS_windows_arch \<noteq> []"
    by (simp_all add: PLATFORMS_windows_versions_def PLATFORMS_windows_arch_def)
  obtain nt where nt: "nt \<in> set PLATFORMS_windows_versions"
      "randomChoice PLATFORMS_windows_versions (rng_drop 3 g) = (Some nt, rng_drop 4 g)"
    using randomChoice_valid [OF v ne(1), of 3] by (auto simp: rng_simps)
  obtain arch where arch: "arch \<in> set PLATFORMS_windows_arch"
      "randomChoice PLATFORMS_windows_arch (rng_drop 4 g) = (Some arch, rng_drop 5 g)"
    using randomChoice_valid [OF v ne(2), of 4] by (auto simp: rng_simps)
  have a: "arch = ''Win64; x64''"
    using arch(1) by (simp add: PLATFORMS_windows_arch_def)
  have "fst (generateWindowsUA g) =
      ''Mozilla/5.0 ('' @ (''Windows NT '' @ nt @ ''; Win64; x64'') @
      '') AppleWebKit/537.36 (KHTML, like Gecko) Chrome/'' @
      js_int_str (\<lfloor>g 0 * 11\<rfloor> + 110) @ ''.'' @ ''0'' @ ''.'' @
      js_int_str (\<lfloor>g 1 * 1001\<rfloor> + 5000) @ ''.'' @ js_int_str \<lfloor>g 2 * 201\<rfloor> @
      '' Safari/537.36''"
    unfolding generateWindowsUA_def generateChromeVersion_eq
    by (simp add: nt(2) arch(2) a js_str_def WEBKIT_BASE_def js_int_str_zero)
  with nt(1) show ?thesis by blast
qed

lemma generateMacUA_shape:
  assumes "valid_rng g"
  shows "\<exists>ver \<in> set PLATFORMS_mac_versions.
           fst (generateMacUA g) =
             ''Mozilla/5.0 ('' @ (''Macintosh; Intel Mac OS X '' @ ver) @
             '') AppleWebKit/537.36 (KHTML, like Gecko) Chrome/'' @
             js_int_str (\<lfloor>g 0 * 11\<rfloor> + 110) @ ''.'' @ ''0'' @ ''.'' @
             js_int_str (\<lfloor>g 1 * 1001\<rfloor> + 5000) @ ''.'' @ js_int_str \<lfloor>g 2 * 201\<rfloor> @
             '' Safari/537.36''"
proof -
  have v: "\<And>k. valid_rng (rng_drop k g)" using assms by (rule valid_rng_drop)
  have ne: "PLATFORMS_mac_versions \<noteq> []"
    by (simp add: PLATFORMS_mac_versions_def)
  obtain ver where ver: "ver \<in> set PLATFORMS_mac_versions"
      "randomChoice PLATFORMS_mac_versions (rng_drop 3 g) = (Some ver, rng_drop 4 g)"
    using randomChoice_valid [OF v ne, of 3] by (auto simp: rng_simps)
  have "fst (generateMacUA g) =
      ''Mozilla/5.0 ('' @ (''Macintosh; Intel Mac OS X '' @ ver) @
      '') AppleWebKit/537.36 (KHTML, like Gecko) Chrome/'' @
      js_int_str (\<lfloor>g 0 * 11\<rfloor> + 110) @ ''.'' @ ''0'' @ ''.'' @
      js_int_str (\<lfloor>g 1 * 1001\<rfloor> + 5000) @ ''.'' @ js_int_str \<lfloor>g 2 * 201\<rfloor> @
      '' Safari/537.36''"
    unfolding generateMacUA_def generateChromeVersion_eq
    by (simp add: ver(2) js_str_def WEBKIT_BASE_def js_int_str_zero)
  with ver(1) show ?thesis by blast
qed

lemma generateLinuxUA_shape:
  "fst (generateLinuxUA g) =
     ''Mozilla/5.0 ('' @ ''X11; Linux x86_64'' @
     '') AppleWebKit/537.36 (KHTML, like Gecko) Chrome/'' @
     js_int_str (\<lfloor>g 0 * 11\<rfloor> + 110) @ ''.'' @ ''0'' @ ''.'' @
     js_int_str (\<lfloor>g 1 * 1001\<rfloor> + 5000) @ ''.'' @ js_int_str \<lfloor>g 2 * 201\<rfloor> @
     '' Safari/537.36''"
  unfolding generateLinuxUA_def generateChromeVersion_eq
  by (simp add: WEBKIT_BASE_def js_int_str_zero)

text \<open>The three generated forms and their hints, for a valid state of the random source.\<close>

lemma windows_ua_hints:
  assumes "valid_rng g"
  shows "\<exists>os major rest.
     fst (generateWindowsUA g) =
       ''Mozilla/5.0 ('' @ os @ '') AppleWebKit/537.36 (KHTML, like Gecko) Chrome/'' @
       major @ ''.'' @ rest \<and>
     major \<noteq> [] \<and> (\<forall>c \<in> set major. is_digit c) \<and> starts_with ''Windows NT '' os \<and>
     generateClientHints (fst (generateWindowsUA g)) =
       [(''sec-ch-ua'',
           dq @ ''Chromium'' @ dq @ '';v='' @ dq @ major @ dq @ '', '' @
           dq @ ''Google Chrome'' @ dq @ '';v='' @ dq @ major @ dq @ '', '' @
           dq @ ''Not=A?Brand'' @ dq @ '';v='' @ dq @ ''8'' @ dq),
        (''sec-ch-ua-mobile'', ''?0''),
        (''sec-ch-ua-platform'', dq @ ''Windows'' @ dq)]"
proof -
  note d = chrome_digits [OF assms]
  obtain nt where nt: "nt \<in> set PLATFORMS_windows_versions"
      "fst (generateWindowsUA g) =
         ''Mozilla/5.0 ('' @ (''Windows NT '' @ nt @ ''; Win64; x64'') @
         '') AppleWebKit/537.36 (KHTML, like Gecko) Chrome/'' @
         js_int_str (\<lfloor>g 0 * 11\<rfloor> + 110) @ ''.'' @ ''0'' @ ''.'' @
         js_int_str (\<lfloor>g 1 * 1001\<rfloor> + 5000) @ ''.'' @ js_int_str \<lfloor>g 2 * 201\<rfloor> @
         '' Safari/537.36''"
    using generateWindowsUA_shape [OF assms] by blast
  let ?os = "''Windows NT '' @ nt @ ''; Win64; x64''"
  have os: "?os \<noteq> []" "CHR '')'' \<notin> set ?os" "CHR ''('' \<notin> set ?os" "CHR ''C'' \<notin> set ?os"
    using nt(1) by (auto simp: PLATFORMS_windows_versions_def)
  have inc: "js_includes (fst (generateWindowsUA g)) ''Windows''"
    unfolding nt(2) using windows_includes [of "nt @ ''; Win64; x64) AppleWebKit/537.36 (KHTML, like Gecko) Chrome/'' @
         js_int_str (\<lfloor>g 0 * 11\<rfloor> + 110) @ ''.'' @ ''0'' @ ''.'' @
         js_int_str (\<lfloor>g 1 * 1001\<rfloor> + 5000) @ ''.'' @ js_int_str \<lfloor>g 2 * 201\<rfloor> @
         '' Safari/537.36''"]
    by simp
  have h: "generateClientHints (fst (generateWindowsUA g)) =
       [(''sec-ch-ua'',
           dq @ ''Chromium'' @ dq @ '';v='' @ dq @ js_int_str (\<lfloor>g 0 * 11\<rfloor> + 110) @ dq @ '', '' @
           dq @ ''Google Chrome'' @ dq @ '';v='' @ dq @ js_int_str (\<lfloor>g 0 * 11\<rfloor> + 110) @ dq @ '', '' @
           dq @ ''Not=A?Brand'' @ dq @ '';v='' @ dq @ ''8'' @ dq),
        (''sec-ch-ua-mobile'', ''?0''),
        (''sec-ch-ua-platform'', dq @ ''Windows'' @ dq)]"
    using hints_generated [OF d os] inc unfolding nt(2) by simp
  have sw: "starts_with ''Windows NT '' ?os" by simp
  show ?thesis
    apply (rule exI [of _ ?os])
    apply (rule exI [of _ "js_int_str (\<lfloor>g 0 * 11\<rfloor> + 110)"])
    apply (rule exI [of _ "''0'' @ ''.'' @ js_int_str (\<lfloor>g 1 * 1001\<rfloor> + 5000) @ ''.'' @
         js_int_str \<lfloor>g 2 * 201\<rfloor> @ '' Safari/537.36''"])
    using d(1,2) sw h nt(2) by simp
qed

lemma mac_ua_hints:
  assumes "valid_rng g"
  shows "\<exists>os major rest.
     fst (generateMacUA g) =
       ''Mozilla/5.0 ('' @ os @ '') AppleWebKit/537.36 (KHTML, like Gecko) Chrome/'' @
       major @ ''.'' @ rest \<and>
     major \<noteq> [] \<and> (\<forall>c \<in> set major. is_digit c) \<and> starts_with ''Macintosh; '' os \<and>
     generateClientHints (fst (generateMacUA g)) =
       [(''sec-ch-ua'',
           dq @ ''Chromium'' @ dq @ '';v='' @ dq @ major @ dq @ '', '' @
           dq @ ''Google Chrome'' @ dq @ '';v='' @ dq @ major @ dq @ '', '' @
           dq @ ''Not=A?Brand'' @ dq @ '';v='' @ dq @ ''8'' @ dq),
        (''sec-ch-ua-mobile'', ''?0''),
        (''sec-ch-ua-platform'', dq @ ''macOS'' @ dq)]"
proof -
  note d = chrome_digits [OF assms]
  obtain ver where ver: "ver \<in> set PLATFORMS_mac_versions"
      "fst (generateMacUA g) =
         ''Mozilla/5.0 ('' @ (''Macintosh; Intel Mac OS X '' @ ver) @
         '') AppleWebKit/537.36 (KHTML, like Gecko) Chrome/'' @
         js_int_str (\<lfloor>g 0 * 11\<rfloor> + 110) @ ''.'' @ ''0'' @ ''.'' @
         js_int_str (\<lfloor>g 1 * 1001\<rfloor> + 5000) @ ''.'' @ js_int_str \<lfloor>g 2 * 201\<rfloor> @
         '' Safari/537.36''"
    using generateMacUA_shape [OF assms] by blast
  let ?os = "''Macintosh; Intel Mac OS X '' @ ver"
  have os: "?os \<noteq> []" "CHR '')'' \<notin> set ?os" "CHR ''('' \<notin> set ?os" "CHR ''C'' \<notin> set ?os"
    using ver(1) by (auto simp: PLATFORMS_mac_versions_def)
  have w: "CHR ''W'' \<notin> set ver"
    using ver(1) by (auto simp: PLATFORMS_mac_versions_def)
  have inc: "\<not> js_includes (fst (generateMacUA g)) ''Windows''"
      "js_includes (fst (generateMacUA g)) ''Mac''"
    unfolding ver(2)
    using mac_includes [OF w digits_no_letter(1) [OF d(2)] digits_no_letter(1) [OF d(4)]
        digits_no_letter(1) [OF d(6)]]
    by blast+
  have h: "generateClientHints (fst (generateMacUA g)) =
       [(''sec-ch-ua'',
           dq @ ''Chromium'' @ dq @ '';v='' @ dq @ js_int_str (\<lfloor>g 0 * 11\<rfloor> + 110) @ dq @ '', '' @
           dq @ ''Google Chrome'' @ dq @ '';v='' @ dq @ js_int_str (\<lfloor>g 0 * 11\<rfloor> + 110) @ dq @ '', '' @
           dq @ ''Not=A?Brand'' @ dq @ '';v='' @ dq @ ''8'' @ dq),
        (''sec-ch-ua-mobile'', ''?0''),
        (''sec-ch-ua-platform'', dq @ ''macOS'' @ dq)]"
    using hints_generated [OF d os] inc unfolding ver(2) by simp
  have sw: "starts_with ''Macintosh; '' ?os" by simp
  show ?thesis
    apply (rule exI [of _ ?os])
    apply (rule exI [of _ "js_int_str (\<lfloor>g 0 * 11\<rfloor> + 110)"])
    apply (rule exI [of _ "''0'' @ ''.'' @ js_int_str (\<lfloor>g 1 * 1001\<rfloor> + 5000) @ ''.'' @
         js_int_str \<lfloor>g 2 * 201\<rfloor> @ '' Safari/537.36''"])
    using d(1,2) sw h ver(2) by simp
qed

lemma linux_ua_hints:
  assumes "valid_rng g"
  shows "\<exists>os major rest.
     fst (generateLinuxUA g) =
       ''Mozilla/5.0 ('' @ os @ '') AppleWebKit/537.36 (KHTML, like Gecko) Chrome/'' @
       major @ ''.'' @ rest \<and>
     major \<noteq> [] \<and> (\<forall>c \<in> set major. is_digit c) \<and> starts_with ''X11; '' os \<and>
     generateClientHints (fst (generateLinuxUA g)) =
       [(''sec-ch-ua'',
           dq @ ''Chromium'' @ dq @ '';v='' @ dq @ major @ dq @ '', '' @
           dq @ ''Google Chrome'' @ dq @ '';v='' @ dq @ major @ dq @ '', '' @
           dq @ ''Not=A?Brand'' @ dq @ '';v='' @ dq @ ''8'' @ dq),
        (''sec-ch-ua-mobile'', ''?0''),
        (''sec-ch-ua-platform'', dq @ ''Linux'' @ dq)]"
proof -
  note d = chrome_digits [OF assms]
  note ua = generateLinuxUA_shape [of g]
  let ?os = "''X11; Linux x86_64''"
  have os: "?os \<noteq> []" "CHR '')'' \<notin> set ?os" "CHR ''('' \<notin> set ?os" "CHR ''C'' \<notin> set ?os"
    by simp_all
  have inc: "\<not> js_includes (fst (generateLinuxUA g)) ''Windows''"
      "\<not> js_includes (fst (generateLinuxUA g)) ''Mac''"
    unfolding ua
    using linux_includes [OF digits_no_letter(1) [OF d(2)] digits_no_letter(1) [OF d(4)]
        digits_no_letter(1) [OF d(6)] digits_no_letter(2) [OF d(2)] digits_no_letter(2) [OF d(4)]
        digits_no_letter(2) [OF d(6)]]
    by blast+
  have h: "generateClientHints (fst (generateLinuxUA g)) =
       [(''sec-ch-ua'',
           dq @ ''Chromium'' @ dq @ '';v='' @ dq @ js_int_str (\<lfloor>g 0 * 11\<rfloor> + 110) @ dq @ '', '' @
           dq @ ''Google Chrome'' @ dq @ '';v='' @ dq @ js_int_str (\<lfloor>g 0 * 11\<rfloor> + 110) @ dq @ '', '' @
           dq @ ''Not=A?Brand'' @ dq @ '';v='' @ dq @ ''8'' @ dq),
        (''sec-ch-ua-mobile'', ''?0''),
        (''sec-ch-ua-platform'', dq @ ''Linux'' @ dq)]"
    using hints_generated [OF d os] inc unfolding ua by simp
  have sw: "starts_with ''X11; '' ?os" by simp
  show ?thesis
    apply (rule exI [of _ ?os])
    apply (rule exI [of _ "js_int_str (\<lfloor>g 0 * 11\<rfloor> + 110)"])
    apply (rule exI [of _ "''0'' @ ''.'' @ js_int_str (\<lfloor>g 1 * 1001\<rfloor> + 5000) @ ''.'' @
         js_int_str \<lfloor>g 2 * 201\<rfloor> @ '' Safari/537.36''"])
    using d(1,2) sw h ua by simp
qed

lemma generateUA_dispatch:
  "fst (generateUA p g) =
     (case (if p = Random then resolvePlatform (g 0) else p) of
        Mac \<Rightarrow> fst (generateMacUA (if p = Random then rng_drop 1 g else g))
      | Linux \<Rightarrow> fst (generateLinuxUA (if p = Random then rng_drop 1 g else g))
      | _ \<Rightarrow> fst (generateWindowsUA (if p = Random then rng_drop 1 g else g)))"
  by (simp add: generateUA_def Math_random_def split: PlatformType.splits)

text \<open>
  Claim C4: for every user agent \<open>generateUA\<close> produces, the client hints computed from it
  agree with it. The user agent has the form
  \<open>Mozilla/5.0 (os) AppleWebKit/537.36 (KHTML, like Gecko) Chrome/major.rest\<close> with \<open>major\<close>
  a non-empty string of digits; the hints are exactly the three headers \<open>sec-ch-ua\<close>,
  \<open>sec-ch-ua-mobile\<close> and \<open>sec-ch-ua-platform\<close>; both brands of \<open>sec-ch-ua\<close> carry the major
  version \<open>major\<close> of the user agent; and the platform header names the platform of the
  user agent: \<open>macOS\<close> for a Macintosh user agent, \<open>Linux\<close> for an X11 one, \<open>Windows\<close> for a
  Windows NT one. The platform is the requested one, or the one drawn when the request
  is \<open>random\<close>.
\<close>

theorem clientHints_agree_with_userAgent:
  assumes "valid_rng g"
  shows "\<exists>os major rest plat.
     fst (generateUA p g) =
       ''Mozilla/5.0 ('' @ os @ '') AppleWebKit/537.36 (KHTML, like Gecko) Chrome/'' @
       major @ ''.'' @ rest \<and>
     major \<noteq> [] \<and> (\<forall>c \<in> set major. is_digit c) \<and>
     generateClientHints (fst (generateUA p g)) =
       [(''sec-ch-ua'',
           dq @ ''Chromium'' @ dq @ '';v='' @ dq @ major @ dq @ '', '' @
           dq @ ''Google Chrome'' @ dq @ '';v='' @ dq @ major @ dq @ '', '' @
           dq @ ''Not=A?Brand'' @ dq @ '';v='' @ dq @ ''8'' @ dq),
        (''sec-ch-ua-mobile'', ''?0''),
        (''sec-ch-ua-platform'', dq @ plat @ dq)] \<and>
     (case (if p = Random then resolvePlatform (g 0) else p) of
        Mac \<Rightarrow> starts_with ''Macintosh; '' os \<and> plat = ''macOS''
      | Linux \<Rightarrow> starts_with ''X11; '' os \<and> plat = ''Linux''
      | _ \<Rightarrow> starts_with ''Windows NT '' os \<and> plat = ''Windows'')"
proof -
  let ?q = "if p = Random then resolvePlatform (g 0) else p"
  let ?g = "if p = Random then rng_drop 1 g else g"
  have v: "valid_rng ?g"
    using assms valid_rng_drop [OF assms, of 1] by simp
  show ?thesis
  proof (cases "?q = Mac")
    case True
    then have ua: "fst (generateUA p g) = fst (generateMacUA ?g)"
      by (simp only: generateUA_dispatch PlatformType.case)
    from mac_ua_hints [OF v] obtain os major rest where
      "fst (generateMacUA ?g) =
         ''Mozilla/5.0 ('' @ os @ '') AppleWebKit/537.36 (KHTML, like Gecko) Chrome/'' @
         major @ ''.'' @ rest"
      "major \<noteq> []" "\<forall>c \<in> set major. is_digit c" "starts_with ''Macintosh; '' os"
      "generateClientHints (fst (generateMacUA ?g)) =
       [(''sec-ch-ua'',
           dq @ ''Chromium'' @ dq @ '';v='' @ dq @ major @ dq @ '', '' @
           dq @ ''Google Chrome'' @ dq @ '';v='' @ dq @ major @ dq @ '', '' @
           dq @ ''Not=A?Brand'' @ dq @ '';v='' @ dq @ ''8'' @ dq),
        (''sec-ch-ua-mobile'', ''?0''),
        (''sec-ch-ua-platform'', dq @ ''macOS'' @ dq)]"
      by blast
    then show ?thesis
      apply -
      apply (rule exI [of _ os], rule exI [of _ major], rule exI [of _ rest])
      apply (rule exI [of _ "''macOS''"])
      using True by (simp only: ua PlatformType.case simp_thms)
  next
    case notMac: False
    show ?thesis
    proof (cases "?q = Linux")
      case True
      then have ua: "fst (generateUA p g) = fst (generateLinuxUA ?g)"
        by (simp only: generateUA_dispatch PlatformType.case)
      from linux_ua_hints [OF v] obtain os major rest where
        "fst (generateLinuxUA ?g) =
           ''Mozilla/5.0 ('' @ os @ '') AppleWebKit/537.36 (KHTML, like Gecko) Chrome/'' @
           major @ ''.'' @ rest"
        "major \<noteq> []" "\<forall>c \<in> set major. is_digit c" "starts_with ''X11; '' os"
        "generateClientHints (fst (generateLinuxUA ?g)) =
         [(''sec-ch-ua'',
             dq @ ''Chromium'' @ dq @ '';v='' @ dq @ major @ dq @ '', '' @
             dq @ ''Google Chrome'' @ dq @ '';v='' @ dq @ major @ dq @ '', '' @
             dq @ ''Not=A?Brand'' @ dq @ '';v='' @ dq @ ''8'' @ dq),
          (''sec-ch-ua-mobile'', ''?0''),
          (''sec-ch-ua-platform'', dq @ ''Linux'' @ dq)]"
        by blast
      then show ?thesis
        apply -
        apply (rule exI [of _ os], rule exI [of _ major], rule exI [of _ rest])
        apply (rule exI [of _ "''Linux''"])
        using True by (simp only: ua PlatformType.case simp_thms)
    next
      case False
      with notMac have q: "?q = Windows \<or> ?q = Random"
        by (cases ?q) simp_all
      then have ua: "fst (generateUA p g) = fst (generateWindowsUA ?g)"
        by (auto simp only: generateUA_dispatch PlatformType.case)
      from windows_ua_hints [OF v] obtain os major rest where
        "fst (generateWindowsUA ?g) =
           ''Mozilla/5.0 ('' @ os @ '') AppleWebKit/537.36 (KHTML, like Gecko) Chrome/'' @
           major @ ''.'' @ rest"
        "major \<noteq> []" "\<forall>c \<in> set major. is_digit c" "starts_with ''Windows NT '' os"
        "generateClientHints (fst (generateWindowsUA ?g)) =
         [(''sec-ch-ua'',
             dq @ ''Chromium'' @ dq @ '';v='' @ dq @ major @ dq @ '', '' @
             dq @ ''Google Chrome'' @ dq @ '';v='' @ dq @ major @ dq @ '', '' @
             dq @ ''Not=A?Brand'' @ dq @ '';v='' @ dq @ ''8'' @ dq),
          (''sec-ch-ua-mobile'', ''?0''),
          (''sec-ch-ua-platform'', dq @ ''Windows'' @ dq)]"
        by blast
      then show ?thesis
        apply -
        apply (rule exI [of _ os], rule exI [of _ major], rule exI [of _ rest])
        apply (rule exI [of _ "''Windows''"])
        using q by (auto simp only: ua PlatformType.case simp_thms)
    qed
  qed
qed

theorem clientHints_agree_with_userAgent_witness:
  "valid_rng (\<lambda>n. 0) \<and>
   (\<exists>major. major \<noteq> [] \<and>
      generateClientHints (fst (generateUA Linux (\<lambda>n. 0))) =
        [(''sec-ch-ua'',
            dq @ ''Chromium'' @ dq @ '';v='' @ dq @ major @ dq @ '', '' @
            dq @ ''Google Chrome'' @ dq @ '';v='' @ dq @ major @ dq @ '', '' @
            dq @ ''Not=A?Brand'' @ dq @ '';v='' @ dq @ ''8'' @ dq),
         (''sec-ch-ua-mobile'', ''?0''),
         (''sec-ch-ua-platform'', dq @ ''Linux'' @ dq)])"
proof -
  have v: "valid_rng (\<lambda>n. 0)" by (simp add: valid_rng_def)
  from clientHints_agree_with_userAgent [OF v, of Linux]
  obtain major plat where
    "major \<noteq> []"
    "generateClientHints (fst (generateUA Linux (\<lambda>n. 0))) =
        [(''sec-ch-ua'',
            dq @ ''Chromium'' @ dq @ '';v='' @ dq @ major @ dq @ '', '' @
            dq @ ''Google Chrome'' @ dq @ '';v='' @ dq @ major @ dq @ '', '' @
            dq @ ''Not=A?Brand'' @ dq @ '';v='' @ dq @ ''8'' @ dq),
         (''sec-ch-ua-mobile'', ''?0''),
         (''sec-ch-ua-platform'', dq @ plat @ dq)]"
    "plat = ''Linux''"
    by (auto simp only: PlatformType.simps if_False PlatformType.case)
  then have "\<exists>major. major \<noteq> [] \<and>
      generateClientHints (fst (generateUA Linux (\<lambda>n. 0))) =
        [(''sec-ch-ua'',
            dq @ ''Chromium'' @ dq @ '';v='' @ dq @ major @ dq @ '', '' @
            dq @ ''Google Chrome'' @ dq @ '';v='' @ dq @ major @ dq @ '', '' @
            dq @ ''Not=A?Brand'' @ dq @ '';v='' @ dq @ ''8'' @ dq),
         (''sec-ch-ua-mobile'', ''?0''),
         (''sec-ch-ua-platform'', dq @ ''Linux'' @ dq)]"
    apply -
    apply (rule exI [of _ major])
    by (simp only: simp_thms)
  with v show ?thesis by (intro conjI)
qed

end
